theory Spec2Isabelle
  imports Main "HOL-Library.AList"
begin

section \<open>The interactive yt-dlp downloader (new.py)\<close>

text \<open>
  The program is a single Python module: a locator for the ffmpeg executable, an updater
  for the yt-dlp package, a builder of the yt-dlp options dictionary, a folder opener and
  an interactive loop around them. Everything it does beyond computing values is an effect
  on the outside: reading lines from standard input, printing, probing the file system,
  starting processes and calling the download library. The embedding makes these explicit:
  \<^item> the outside is a record \<open>world\<close> of answers (what \<open>shutil.which\<close> finds, which
    paths exist and whether asking raises, what \<open>str\<close> of a path is, whether \<open>mkdir\<close>,
    the package manager, the folder opener or the download raise);
  \<^item> the program state is a record: the module global \<open>DEFAULT_DOWNLOAD_PATH\<close>, the
    local variables of \<open>main\<close> (they live across loop iterations), the lines still to be
    read from standard input, and the chronological trace of effects;
  \<^item> \<open>input()\<close> at the end of standard input raises \<open>EOFError\<close>, and \<open>Path.exists()\<close>
    can raise \<open>OSError\<close>; no handler of the program catches either, so every function
    that reads or probes returns \<open>exn + 'a\<close>.
  Python strings are modelled as \<open>string\<close> holding their UTF-8 bytes, so the non-ASCII
  literals of the source are byte lists.

  Left out of the model: interruptions that are not an \<open>Exception\<close> (such as
  \<open>KeyboardInterrupt\<close>), which the handlers of the program do not catch either, and
  failures of \<open>print\<close>, \<open>str\<close> and \<open>Path.resolve\<close>, which are taken to return. The
  world answers the same question the same way throughout a run.
\<close>

subsection \<open>Strings\<close>

definition upper_lower :: "(char \<times> char) list" where
  "upper_lower = zip ''ABCDEFGHIJKLMNOPQRSTUVWXYZ'' ''abcdefghijklmnopqrstuvwxyz''"

definition lower_char :: "char \<Rightarrow> char" where
  "lower_char c = (case map_of upper_lower c of Some l \<Rightarrow> l | None \<Rightarrow> c)"

text \<open>
  \<open>str.lower()\<close>. On ASCII it maps \<open>A..Z\<close> to \<open>a..z\<close>. Bytes of non-ASCII code points
  are left as they are: Python lowers some of those code points too, but never into
  one of the strings the program compares with (the only non-ASCII code point whose
  lower case is a single ASCII letter is the Kelvin sign, which gives \<open>k\<close>, and Arabic
  letters have no case).
\<close>

definition lower :: "string \<Rightarrow> string" where
  "lower s = map lower_char s"

definition dashes :: "nat \<Rightarrow> string" where
  "dashes n = replicate n CHR ''-''"

definition equals :: "nat \<Rightarrow> string" where
  "equals n = replicate n CHR ''=''"

definition hashes :: "nat \<Rightarrow> string" where
  "hashes n = replicate n CHR ''#''"

definition newline :: string where
  "newline = [CHR 0x0A]"

text \<open>The emoji and the Arabic word of the source, as UTF-8.\<close>

definition emoji_refresh :: string where
  "emoji_refresh = [CHR 0xF0, CHR 0x9F, CHR 0x94, CHR 0x84]"

definition emoji_check :: string where
  "emoji_check = [CHR 0xE2, CHR 0x9C, CHR 0x85]"

definition emoji_cross :: string where
  "emoji_cross = [CHR 0xE2, CHR 0x9D, CHR 0x8C]"

definition emoji_folder :: string where
  "emoji_folder = [CHR 0xF0, CHR 0x9F, CHR 0x93, CHR 0x82]"

definition emoji_siren :: string where
  "emoji_siren = [CHR 0xF0, CHR 0x9F, CHR 0x9A, CHR 0xA8]"

definition emoji_party :: string where
  "emoji_party = [CHR 0xF0, CHR 0x9F, CHR 0xA5, CHR 0xB3]"

definition arabic_no :: string where
  "arabic_no = [CHR 0xD9, CHR 0x84, CHR 0xD8, CHR 0xA7]"

subsection \<open>Paths, dictionaries, the outside world\<close>

text \<open>
  A \<open>pathlib\<close> path is kept as the expression that built it: the constructor
  \<open>Path(s)\<close>, \<open>Path.home()\<close>, the operator \<open>/\<close> and \<open>.resolve()\<close>. What the
  expression denotes on a given machine (\<open>str\<close>, \<open>exists\<close>, \<open>mkdir\<close>) is the world's
  answer.
\<close>

datatype path = Path string | Home | Div path string | Resolve path

datatype pyval = Str string | Bool bool | PyList "pyval list" | PyDict "(string \<times> pyval) list"

type_synonym pydict = "(string \<times> pyval) list"

text \<open>\<open>d.update(e)\<close>: each key of \<open>e\<close> replaces the entry of \<open>d\<close> or is added at the end.\<close>

definition dict_update :: "pydict \<Rightarrow> pydict \<Rightarrow> pydict" where
  "dict_update d e = fold (\<lambda>(k, v). AList.update k v) e d"

datatype exn = EOFError | OSError string

datatype download_result = Completed | DownloadError string | OtherException string

datatype event =
    Print string
  | Prompt string
  | Which string
  | Exists path
  | CheckCall "string list"
  | Mkdir path
  | Startfile string
  | Popen "string list"
  | YoutubeDL_download pydict "string list"

record world =
  which :: "string \<Rightarrow> string option"
  path_exists :: "path \<Rightarrow> bool"
  exists_raises :: "path \<Rightarrow> string option"
  path_str :: "path \<Rightarrow> string"
  sys_executable :: string
  check_call_raises :: "string list \<Rightarrow> bool"
  mkdir_raises :: "path \<Rightarrow> string option"
  platform_system :: string
  open_raises :: "event \<Rightarrow> string option"
  ydl_download :: "pydict \<Rightarrow> string list \<Rightarrow> download_result"

record state =
  DEFAULT_DOWNLOAD_PATH :: path
  ffmpeg_path :: string
  url :: string
  is_audio_only :: bool
  ydl_options :: pydict
  cont :: string
  stdin :: "string list"
  trace :: "event list"

definition emit :: "event \<Rightarrow> state \<Rightarrow> state" where
  "emit e s = s\<lparr>trace := trace s @ [e]\<rparr>"

definition py_print :: "string \<Rightarrow> state \<Rightarrow> state" where
  "py_print m s = emit (Print m) s"

text \<open>\<open>input(p)\<close> writes the prompt, then reads a line or raises \<open>EOFError\<close>.\<close>

definition py_input :: "string \<Rightarrow> state \<Rightarrow> (exn + string) \<times> state" where
  "py_input p s =
     (case stdin s of
        [] \<Rightarrow> (Inl EOFError, emit (Prompt p) s)
      | x # xs \<Rightarrow> (Inr x, (emit (Prompt p) s)\<lparr>stdin := xs\<rparr>))"

subsection \<open>find_ffmpeg_path\<close>

definition common_paths :: "path list" where
  "common_paths =
     [Path ''C:/YT/ffmpeg/bin/ffmpeg.exe'',
      Path ''C:/YT/ffmpeg/ffmpeg.exe'',
      Path ''C:/ffmpeg/bin/ffmpeg.exe'',
      Path ''C:/ffmpeg/ffmpeg.exe'']"

text \<open>
  The \<open>for p in common_paths\<close> loop, with the \<open>return None\<close> after it. The call
  \<open>p.exists()\<close> answers whether the path is on disk, unless it raises: \<open>pathlib\<close> passes
  on every \<open>OSError\<close> but a few (so \<open>PermissionError\<close> for a directory that may not be
  searched), and the loop has no handler, so the error leaves the function.
\<close>

fun probe_paths :: "world \<Rightarrow> path list \<Rightarrow> state \<Rightarrow> (exn + string option) \<times> state" where
  "probe_paths w [] s = (Inr None, s)"
| "probe_paths w (p # ps) s =
     (let s1 = emit (Exists p) s in
      case exists_raises w p of
        Some e \<Rightarrow> (Inl (OSError e), s1)
      | None \<Rightarrow>
          if path_exists w p then (Inr (Some (path_str w (Resolve p))), s1)
          else probe_paths w ps s1)"

text \<open>The truth value of an optional string: \<open>None\<close> and the empty string are false.\<close>

fun truthy :: "string option \<Rightarrow> bool" where
  "truthy None = False"
| "truthy (Some x) = (x \<noteq> [])"

definition find_ffmpeg_path :: "world \<Rightarrow> state \<Rightarrow> (exn + string option) \<times> state" where
  "find_ffmpeg_path w s =
     (let ffmpeg_exe = which w ''ffmpeg'';
          s1 = emit (Which ''ffmpeg'') s in
      if truthy ffmpeg_exe then (Inr ffmpeg_exe, s1)
      else probe_paths w common_paths s1)"

subsection \<open>update_ytdlp_library\<close>

definition pip_command :: "world \<Rightarrow> string list" where
  "pip_command w = [sys_executable w, ''-m'', ''pip'', ''install'', ''--upgrade'', ''yt-dlp'']"

definition update_ytdlp_library :: "world \<Rightarrow> state \<Rightarrow> state" where
  "update_ytdlp_library w s =
     (let s1 = py_print (dashes 40) s;
          s2 = py_print (emoji_refresh @ '' Checking for yt-dlp library updates...'') s1;
          s3 = emit (CheckCall (pip_command w)) s2;
          s4 = (if check_call_raises w (pip_command w)
                then py_print (emoji_cross @ '' Failed to update library. Please update manually.'') s3
                else py_print (emoji_check @
                       '' Library updated successfully (or is already the latest version).'') s3)
      in py_print (dashes 40) s4)"

subsection \<open>open_download_folder\<close>

definition open_call :: "world \<Rightarrow> string \<Rightarrow> event" where
  "open_call w folder_path =
     (if platform_system w = ''Windows'' then Startfile folder_path
      else if platform_system w = ''Darwin'' then Popen [''open'', folder_path]
      else Popen [''xdg-open'', folder_path])"

definition opening_message :: "string \<Rightarrow> string" where
  "opening_message folder_path = emoji_folder @ '' Opening download folder now: '' @ folder_path"

definition open_failed_message :: "string \<Rightarrow> string" where
  "open_failed_message e = emoji_cross @ '' Failed to open download folder automatically: '' @ e"

definition open_download_folder :: "world \<Rightarrow> string \<Rightarrow> state \<Rightarrow> state" where
  "open_download_folder w folder_path s =
     (let s1 = emit (open_call w folder_path) s in
      case open_raises w (open_call w folder_path) of
        None \<Rightarrow> py_print (opening_message folder_path) s1
      | Some e \<Rightarrow> py_print (open_failed_message e) s1)"

subsection \<open>create_download_options\<close>

definition audio_postprocessing :: pydict where
  "audio_postprocessing =
     [(''postprocessors'',
         PyList [PyDict [(''key'', Str ''FFmpegExtractAudio''),
                         (''preferredcodec'', Str ''mp3''),
                         (''preferredquality'', Str ''192'')]]),
      (''extract_audio'', Bool True)]"

text \<open>
  The function reads the module global \<open>DEFAULT_DOWNLOAD_PATH\<close>, so it takes the state
  besides its two parameters.
\<close>

definition create_download_options :: "world \<Rightarrow> state \<Rightarrow> bool \<Rightarrow> string \<Rightarrow> pydict" where
  "create_download_options w s audio_only ffmpeg =
     (let output_template =
            path_str w (Div (Resolve (DEFAULT_DOWNLOAD_PATH s)) ''%(title)s.%(ext)s'');
          ydl_opts =
            [(''outtmpl'', Str output_template),
             (''ignoreerrors'', Bool True),
             (''ffmpeg_location'', Str ffmpeg),
             (''restrictfilenames'', Bool True),
             (''format'', Str (if \<not> audio_only then ''bestvideo*+bestaudio/best''
                               else ''bestaudio/best''))]
      in if audio_only then dict_update ydl_opts audio_postprocessing else ydl_opts)"

subsection \<open>get_user_input\<close>

definition mode_prompt :: string where
  "mode_prompt =
     ''3. What type of download is required? (Type v for Video+Audio / a for Audio only): ''"

definition invalid_mode_message :: string where
  "invalid_mode_message = emoji_cross @ '' Invalid input. Please enter 'v' or 'a'.''"

text \<open>
  The \<open>while True\<close> loop of the mode prompt. Every turn reads one line, so the number of
  lines left on standard input bounds the loop.
\<close>

function read_mode :: "state \<Rightarrow> (exn + bool) \<times> state" where
  "read_mode s =
     (case py_input mode_prompt s of
        (Inl e, s1) \<Rightarrow> (Inl e, s1)
      | (Inr line, s1) \<Rightarrow>
          (let mode = lower line in
           if mode \<in> set [''v'', ''a''] then (Inr (mode = ''a''), s1)
           else read_mode (py_print invalid_mode_message s1)))"
  by pat_completeness auto
termination
  by (relation "measure (\<lambda>s. length (stdin s))")
     (auto simp: py_input_def py_print_def emit_def split: list.splits)

declare read_mode.simps [simp del]

definition path_prompt :: "string \<Rightarrow> string" where
  "path_prompt current_path =
     ''2. Current save path: ['' @ current_path @ '']'' @ newline @
     ''   Do you want to change it? (Press Enter for current path, or enter a new path): ''"

definition get_user_input :: "world \<Rightarrow> state \<Rightarrow> (exn + string \<times> bool) \<times> state" where
  "get_user_input w s =
     (let s1 = py_print (equals 40) s;
          s2 = py_print ''          YT-DLP Interactive Downloader'' s1;
          s3 = py_print (equals 40) s2 in
      case py_input ''1. Please enter the video or playlist URL: '' s3 of
        (Inl e, s4) \<Rightarrow> (Inl e, s4)
      | (Inr u, s4) \<Rightarrow>
          (let current_path = path_str w (Resolve (DEFAULT_DOWNLOAD_PATH s4)) in
           case py_input (path_prompt current_path) s4 of
             (Inl e, s5) \<Rightarrow> (Inl e, s5)
           | (Inr new_path_input, s5) \<Rightarrow>
               (let s6 = (if new_path_input \<noteq> []
                          then s5\<lparr>DEFAULT_DOWNLOAD_PATH := Path new_path_input\<rparr>
                          else s5) in
                case read_mode s6 of
                  (Inl e, s7) \<Rightarrow> (Inl e, s7)
                | (Inr audio_only, s7) \<Rightarrow> (Inr (u, audio_only), s7))))"

subsection \<open>main\<close>

text \<open>The \<open>try\<close> around \<open>mkdir\<close> (step 1 of the loop body); the result says whether it passed.\<close>

definition saved_in_message :: "string \<Rightarrow> string" where
  "saved_in_message folder = newline @ ''File(s) will be saved in folder: '' @ folder"

definition folder_failed_message :: "string \<Rightarrow> string" where
  "folder_failed_message e = emoji_cross @ '' Failed to create save folder: '' @ e"

definition create_save_folder :: "world \<Rightarrow> state \<Rightarrow> bool \<times> state" where
  "create_save_folder w s =
     (let s1 = emit (Mkdir (DEFAULT_DOWNLOAD_PATH s)) s in
      case mkdir_raises w (DEFAULT_DOWNLOAD_PATH s) of
        None \<Rightarrow>
          (True, py_print (saved_in_message (path_str w (Resolve (DEFAULT_DOWNLOAD_PATH s)))) s1)
      | Some e \<Rightarrow> (False, py_print (folder_failed_message e) s1))"

definition completion_banner :: string where
  "completion_banner = ''         '' @ emoji_party @ '' Download operations complete!''"

definition download_failed_message :: string where
  "download_failed_message =
     emoji_cross @ '' Download failed. Ensure the URL is correct and the library is updated.''"

definition error_details :: "string \<Rightarrow> string" where
  "error_details e = ''Error details: '' @ e"

definition unexpected_error_message :: "string \<Rightarrow> string" where
  "unexpected_error_message e =
     emoji_cross @ '' An unexpected error occurred. Error details: '' @ e"

text \<open>
  Step 2 of the loop body: the options are built, the selected type is printed, and the
  download runs inside \<open>try\<close> with its two handlers.
\<close>

definition selected_message :: "bool \<Rightarrow> string" where
  "selected_message audio_only =
     ''Selected download type: '' @
     (if audio_only then ''Audio Only (MP3)'' else ''Best Quality Video and Audio'')"

definition start_download :: "world \<Rightarrow> state \<Rightarrow> state" where
  "start_download w s =
     (let s1 = s\<lparr>ydl_options := create_download_options w s (is_audio_only s) (ffmpeg_path s)\<rparr>;
          s2 = py_print (dashes 40) s1;
          s3 = py_print (selected_message (is_audio_only s2)) s2;
          s4 = py_print (dashes 40) s3;
          s5 = emit (YoutubeDL_download (ydl_options s4) [url s4]) s4 in
      case ydl_download w (ydl_options s4) [url s4] of
        Completed \<Rightarrow>
          (let s6 = py_print (newline @ equals 40) s5;
               s7 = py_print completion_banner s6;
               s8 = py_print (equals 40) s7 in
           open_download_folder w (path_str w (Resolve (DEFAULT_DOWNLOAD_PATH s8))) s8)
      | DownloadError e \<Rightarrow>
          (let s6 = py_print (newline @ equals 40) s5;
               s7 = py_print download_failed_message s6;
               s8 = py_print (error_details e) s7 in
           py_print (equals 40) s8)
      | OtherException e \<Rightarrow>
          (let s6 = py_print (newline @ equals 40) s5;
               s7 = py_print (unexpected_error_message e) s6 in
           py_print (equals 40) s7))"

datatype control = Continue | Break

definition continue_prompt :: string where
  "continue_prompt = newline @
     ''Do you want to download another video? (Type yes or press Enter to continue, or no to exit): ''"

definition goodbye_message :: string where
  "goodbye_message = ''Thank you for using the tool. Goodbye.''"

definition separator :: string where
  "separator = newline @ hashes 50 @ newline"

definition no_url_message :: string where
  "no_url_message = emoji_cross @ '' No URL entered. Returning to the start.''"

definition stop_tokens :: "string list" where
  "stop_tokens = [''no'', ''n'', arabic_no]"

text \<open>The end of the loop body: the question whether to go on.\<close>

definition ask_continue :: "state \<Rightarrow> (exn + control) \<times> state" where
  "ask_continue s =
     (case py_input continue_prompt s of
        (Inl e, s1) \<Rightarrow> (Inl e, s1)
      | (Inr line, s1) \<Rightarrow>
          (let s2 = s1\<lparr>cont := lower line\<rparr> in
           if cont s2 \<in> set stop_tokens
           then (Inr Break, py_print goodbye_message s2)
           else (Inr Continue, py_print separator s2)))"

text \<open>
  One turn of the \<open>while True\<close> loop of \<open>main\<close>. \<open>Continue\<close> stands for both the
  \<open>continue\<close> statements and the end of the body, \<open>Break\<close> for \<open>break\<close>.
\<close>

definition loop_body :: "world \<Rightarrow> state \<Rightarrow> (exn + control) \<times> state" where
  "loop_body w s =
     (case get_user_input w s of
        (Inl e, s1) \<Rightarrow> (Inl e, s1)
      | (Inr (u, audio_only), s1) \<Rightarrow>
          (let s2 = s1\<lparr>url := u, is_audio_only := audio_only\<rparr> in
           if url s2 = []
           then (Inr Continue, py_print no_url_message s2)
           else (case create_save_folder w s2 of
                   (False, s3) \<Rightarrow> (Inr Continue, s3)
                 | (True, s3) \<Rightarrow> ask_continue (start_download w s3))))"

text \<open>
  The loop of \<open>main\<close> is defined by recursion on the unread input, which needs these
  facts first: printing leaves the input alone, and a turn that does not end in
  \<open>EOFError\<close> has read at least one line.
\<close>

lemma stdin_emit: "stdin (emit e s) = stdin s"
  by (simp add: emit_def)

lemma stdin_py_print: "stdin (py_print m s) = stdin s"
  by (simp add: py_print_def emit_def)

lemma py_input_Inr: "py_input p s = (Inr x, s') \<Longrightarrow> stdin s = x # stdin s'"
  by (auto simp: py_input_def emit_def split: list.splits)

lemma read_mode_stdin: "read_mode s = (Inr b, s') \<Longrightarrow> length (stdin s') < length (stdin s)"
proof (induction s rule: read_mode.induct)
  case (1 s)
  show ?case
  proof (cases "py_input mode_prompt s")
    case (Pair r s1)
    show ?thesis
    proof (cases r)
      case (Inl e)
      with Pair "1.prems" show ?thesis
        by (simp add: read_mode.simps [of s])
    next
      case (Inr line)
      have len: "length (stdin s1) < length (stdin s)"
        using py_input_Inr [of mode_prompt s line s1] Pair Inr by simp
      show ?thesis
      proof (cases "lower line \<in> set [''v'', ''a'']")
        case True
        with Pair Inr "1.prems" len show ?thesis
          by (simp add: read_mode.simps [of s])
      next
        case False
        with Pair Inr "1.prems" have "read_mode (py_print invalid_mode_message s1) = (Inr b, s')"
          by (simp add: read_mode.simps [of s])
        from "1.IH" [OF Pair [symmetric] Inr refl False this]
        have "length (stdin s') < length (stdin (py_print invalid_mode_message s1))" .
        with len show ?thesis
          by (simp add: stdin_py_print)
      qed
    qed
  qed
qed

lemma get_user_input_stdin:
  assumes "get_user_input w s = (Inr r, s')"
  shows "length (stdin s') < length (stdin s)"
proof -
  let ?s3 = "py_print (equals 40) (py_print ''          YT-DLP Interactive Downloader''
               (py_print (equals 40) s))"
  obtain r1 s4 where i1: "py_input ''1. Please enter the video or playlist URL: '' ?s3 = (r1, s4)"
    by (cases "py_input ''1. Please enter the video or playlist URL: '' ?s3")
  show ?thesis
  proof (cases r1)
    case (Inl e)
    with i1 assms show ?thesis
      by (simp add: get_user_input_def)
  next
    case (Inr u)
    from py_input_Inr [of _ ?s3 u s4] i1 Inr
    have l1: "length (stdin s4) < length (stdin s)"
      by (simp add: stdin_py_print)
    let ?p = "path_prompt (path_str w (Resolve (DEFAULT_DOWNLOAD_PATH s4)))"
    obtain r2 s5 where i2: "py_input ?p s4 = (r2, s5)"
      by (cases "py_input ?p s4")
    show ?thesis
    proof (cases r2)
      case (Inl e)
      with i1 \<open>r1 = Inr u\<close> i2 assms show ?thesis
        by (simp add: get_user_input_def)
    next
      case (Inr n)
      from py_input_Inr [of ?p s4 n s5] i2 Inr
      have l2: "length (stdin s5) < length (stdin s4)"
        by simp
      let ?s6 = "if n \<noteq> [] then s5\<lparr>DEFAULT_DOWNLOAD_PATH := Path n\<rparr> else s5"
      have l3: "stdin ?s6 = stdin s5"
        by simp
      obtain r3 s7 where i3: "read_mode ?s6 = (r3, s7)"
        by (cases "read_mode ?s6")
      show ?thesis
      proof (cases r3)
        case (Inl e)
        with i1 \<open>r1 = Inr u\<close> i2 \<open>r2 = Inr n\<close> i3 assms show ?thesis
          by (simp add: get_user_input_def)
      next
        case (Inr a)
        with i1 \<open>r1 = Inr u\<close> i2 \<open>r2 = Inr n\<close> i3 assms have "s' = s7"
          by (simp add: get_user_input_def)
        moreover from read_mode_stdin [of ?s6 a s7] i3 Inr
        have "length (stdin s7) < length (stdin ?s6)"
          by simp
        ultimately show ?thesis
          using l1 l2 l3 by simp
      qed
    qed
  qed
qed

lemma stdin_create_save_folder: "stdin (snd (create_save_folder w s)) = stdin s"
  by (simp add: create_save_folder_def Let_def stdin_py_print stdin_emit split: option.splits)

lemma stdin_open_download_folder: "stdin (open_download_folder w f s) = stdin s"
  by (simp add: open_download_folder_def Let_def stdin_py_print stdin_emit split: option.splits)

lemma stdin_start_download: "stdin (start_download w s) = stdin s"
  by (simp add: start_download_def Let_def stdin_py_print stdin_emit stdin_open_download_folder
           split: download_result.splits)

lemma ask_continue_stdin:
  assumes "ask_continue s = (Inr c, s')"
  shows "length (stdin s') < length (stdin s)"
proof -
  obtain r s1 where i: "py_input continue_prompt s = (r, s1)"
    by (cases "py_input continue_prompt s")
  show ?thesis
  proof (cases r)
    case (Inl e)
    with i assms show ?thesis
      by (simp add: ask_continue_def)
  next
    case (Inr line)
    from py_input_Inr [of continue_prompt s line s1] i Inr
    have "length (stdin s1) < length (stdin s)"
      by simp
    moreover from i Inr assms have "stdin s' = stdin s1"
      by (auto simp: ask_continue_def Let_def stdin_py_print split: if_splits)
    ultimately show ?thesis
      by simp
  qed
qed

lemma loop_body_stdin:
  assumes "loop_body w s = (Inr c, s')"
  shows "length (stdin s') < length (stdin s)"
proof (cases "get_user_input w s")
  case (Pair r s1)
  show ?thesis
  proof (cases r)
    case (Inl e)
    with Pair assms show ?thesis
      by (simp add: loop_body_def)
  next
    case (Inr ua)
    obtain u a where ua: "ua = (u, a)"
      by (cases ua)
    have len: "length (stdin s1) < length (stdin s)"
      using get_user_input_stdin Pair Inr by blast
    let ?s2 = "s1\<lparr>url := u, is_audio_only := a\<rparr>"
    show ?thesis
    proof (cases "u = []")
      case True
      with Pair Inr ua assms have "s' = py_print no_url_message ?s2"
        by (simp add: loop_body_def)
      with len show ?thesis
        by (simp add: stdin_py_print)
    next
      case False
      obtain ok s3 where csf: "create_save_folder w ?s2 = (ok, s3)"
        by (cases "create_save_folder w ?s2")
      have s3: "stdin s3 = stdin s1"
        using stdin_create_save_folder [of w ?s2] csf by simp
      show ?thesis
      proof (cases ok)
        case True
        with Pair Inr ua False csf assms have "ask_continue (start_download w s3) = (Inr c, s')"
          by (simp add: loop_body_def)
        from ask_continue_stdin [OF this] s3 len show ?thesis
          by (simp add: stdin_start_download)
      next
        case False
        with Pair Inr ua \<open>u \<noteq> []\<close> csf assms have "s' = s3"
          by (simp add: loop_body_def)
        with s3 len show ?thesis by simp
      qed
    qed
  qed
qed

text \<open>
  The \<open>while True\<close> loop of \<open>main\<close>. A turn that goes on has read at least one line, so
  the loop ends on every finite input: with \<open>break\<close>, or with \<open>EOFError\<close>.
\<close>

function main_loop :: "world \<Rightarrow> state \<Rightarrow> (exn + unit) \<times> state" where
  "main_loop w s =
     (case loop_body w s of
        (Inl e, s') \<Rightarrow> (Inl e, s')
      | (Inr Break, s') \<Rightarrow> (Inr (), s')
      | (Inr Continue, s') \<Rightarrow> main_loop w s')"
  by pat_completeness auto
termination
proof (relation "measure (\<lambda>(w, s). length (stdin s))")
  show "wf (measure (\<lambda>(w, s). length (stdin s)))"
    by simp
next
  fix w :: world and s :: state and x :: "(exn + control) \<times> state"
    and r :: "exn + control" and s' :: state and c :: control
  assume "(r, s') = loop_body w s" and "r = Inr c"
  then have "loop_body w s = (Inr c, s')"
    by simp
  from loop_body_stdin [OF this]
  show "((w, s'), (w, s)) \<in> measure (\<lambda>(w, s). length (stdin s))"
    by simp
qed

declare main_loop.simps [simp del]

definition ffmpeg_missing_note :: "string list" where
  "ffmpeg_missing_note =
     [newline @ equals 40,
      emoji_siren @ '' IMPORTANT NOTE: FFmpeg was not found!'',
      ''  Video/audio will not be merged, and you may get temporary files (e.g., `_.webm`).'',
      ''  To fix this, ensure ffmpeg.exe is in: C:'' @ [CHR 0x5C] @ ''YT'' @ [CHR 0x0C] @
        ''fmpeg'' @ [CHR 0x08] @ ''in'',
      equals 40]"

definition print_all :: "string list \<Rightarrow> state \<Rightarrow> state" where
  "print_all ms s = fold py_print ms s"

definition ffmpeg_found_message :: string where
  "ffmpeg_found_message =
     newline @ emoji_check @ '' FFmpeg found. Video and audio will be merged!''"

text \<open>
  The call of \<open>find_ffmpeg_path\<close> is not inside a \<open>try\<close>: an error of a probe leaves
  \<open>main\<close> as well. The test \<open>not ffmpeg_path or ffmpeg_path == 'ffmpeg'\<close> holds for
  \<open>None\<close>, for the empty string and for \<open>ffmpeg\<close>; in every other case the local
  keeps the path that was found.
\<close>

definition main :: "world \<Rightarrow> state \<Rightarrow> (exn + unit) \<times> state" where
  "main w s =
     (let s1 = update_ytdlp_library w s in
      case find_ffmpeg_path w s1 of
        (Inl e, s2) \<Rightarrow> (Inl e, s2)
      | (Inr found, s2) \<Rightarrow>
          (let missing = (print_all ffmpeg_missing_note s2)\<lparr>ffmpeg_path := ''ffmpeg''\<rparr>;
               s3 = (case found of
                       None \<Rightarrow> missing
                     | Some x \<Rightarrow>
                         if x = [] \<or> x = ''ffmpeg'' then missing
                         else (py_print ffmpeg_found_message s2)\<lparr>ffmpeg_path := x\<rparr>)
           in main_loop w s3))"

text \<open>
  The module run as a script: the global is initialised, \<open>main()\<close> runs, and a last
  \<open>input\<close> keeps the window open. The locals of \<open>main\<close> are unbound at the start; the
  model gives them empty values, which are never read before they are assigned.
\<close>

definition initial_state :: "string list \<Rightarrow> state" where
  "initial_state lines =
     \<lparr>DEFAULT_DOWNLOAD_PATH = Div (Div Home ''Downloads'') ''YT_Downloads'',
      ffmpeg_path = [], url = [], is_audio_only = False, ydl_options = [], cont = [],
      stdin = lines, trace = []\<rparr>"

definition program :: "world \<Rightarrow> string list \<Rightarrow> (exn + unit) \<times> state" where
  "program w lines =
     (case main w (initial_state lines) of
        (Inl e, s) \<Rightarrow> (Inl e, s)
      | (Inr _, s) \<Rightarrow>
          (case py_input ''Press Enter to close the window...'' s of
             (Inl e, s') \<Rightarrow> (Inl e, s')
           | (Inr _, s') \<Rightarrow> (Inr (), s')))"

section \<open>Auxiliary facts\<close>

subsection \<open>Reading lines and lowering case\<close>

lemma py_input_Nil:
  "stdin s = [] \<Longrightarrow> py_input p s = (Inl EOFError, s\<lparr>trace := trace s @ [Prompt p]\<rparr>)"
  by (simp add: py_input_def emit_def)

lemma py_input_Cons:
  "stdin s = x # xs \<Longrightarrow> py_input p s = (Inr x, s\<lparr>stdin := xs, trace := trace s @ [Prompt p]\<rparr>)"
  by (simp add: py_input_def emit_def)

lemma lower_char_v: "lower_char c = CHR ''v'' \<longleftrightarrow> c = CHR ''v'' \<or> c = CHR ''V''"
  by (simp add: lower_char_def upper_lower_def) 

lemma lower_Nil: "lower s = [] \<longleftrightarrow> s = []"
  by (simp add: lower_def)

lemma lower_Cons: "lower s = c # cs \<longleftrightarrow> (\<exists>d ds. s = d # ds \<and> lower_char d = c \<and> lower ds = cs)"
  by (cases s) (auto simp: lower_def)

lemma lower_v: "lower s = ''v'' \<longleftrightarrow> s = ''v'' \<or> s = ''V''"
  by (auto simp: lower_Cons lower_Nil lower_char_v)

lemma lower_char_a: "lower_char c = CHR ''a'' \<longleftrightarrow> c = CHR ''a'' \<or> c = CHR ''A''"
  by (simp add: lower_char_def upper_lower_def)

lemma lower_char_n: "lower_char c = CHR ''n'' \<longleftrightarrow> c = CHR ''n'' \<or> c = CHR ''N''"
  by (simp add: lower_char_def upper_lower_def)

lemma lower_char_o: "lower_char c = CHR ''o'' \<longleftrightarrow> c = CHR ''o'' \<or> c = CHR ''O''"
  by (simp add: lower_char_def upper_lower_def)

lemma lower_char_arabic:
  "lower_char c = CHR 0xD9 \<longleftrightarrow> c = CHR 0xD9"
  "lower_char c = CHR 0x84 \<longleftrightarrow> c = CHR 0x84"
  "lower_char c = CHR 0xD8 \<longleftrightarrow> c = CHR 0xD8"
  "lower_char c = CHR 0xA7 \<longleftrightarrow> c = CHR 0xA7"
  by (simp_all add: lower_char_def upper_lower_def)

lemma lower_a: "lower s = ''a'' \<longleftrightarrow> s = ''a'' \<or> s = ''A''"
  by (auto simp: lower_Cons lower_Nil lower_char_a)

lemma lower_n: "lower s = ''n'' \<longleftrightarrow> s = ''n'' \<or> s = ''N''"
  by (auto simp: lower_Cons lower_Nil lower_char_n)

lemma lower_no: "lower s = ''no'' \<longleftrightarrow> s = ''no'' \<or> s = ''No'' \<or> s = ''nO'' \<or> s = ''NO''"
  by (auto simp: lower_Cons lower_Nil lower_char_n lower_char_o)

lemma lower_arabic_no: "lower s = arabic_no \<longleftrightarrow> s = arabic_no"
  by (auto simp: arabic_no_def lower_Cons lower_Nil lower_char_arabic)

lemma mode_accepted: "lower x \<in> set [''v'', ''a''] \<longleftrightarrow> x \<in> {''v'', ''V'', ''a'', ''A''}"
  using lower_v [of x] lower_a [of x] by auto

lemma read_mode_accept:
  assumes "stdin s = x # rest" and "x \<in> {''v'', ''V'', ''a'', ''A''}"
  shows "read_mode s =
           (Inr (x \<in> {''a'', ''A''}), s\<lparr>stdin := rest, trace := trace s @ [Prompt mode_prompt]\<rparr>)"
proof -
  from assms(2) have "lower x \<in> set [''v'', ''a'']"
    using mode_accepted [of x] by blast
  moreover have "lower x = ''a'' \<longleftrightarrow> x \<in> {''a'', ''A''}"
    using lower_a [of x] by simp
  ultimately show ?thesis
    using py_input_Cons [OF assms(1), of mode_prompt]
    by (simp add: read_mode.simps [of s])
qed

lemma read_mode_reject:
  assumes "stdin s = x # rest" and "x \<notin> {''v'', ''V'', ''a'', ''A''}"
  shows "read_mode s =
           read_mode (s\<lparr>stdin := rest,
                        trace := trace s @ [Prompt mode_prompt, Print invalid_mode_message]\<rparr>)"
proof -
  from assms(2) have "lower x \<notin> set [''v'', ''a'']"
    using mode_accepted [of x] by blast
  then show ?thesis
    using py_input_Cons [OF assms(1), of mode_prompt]
    by (simp add: read_mode.simps [of s] py_print_def emit_def)
qed

lemma read_mode_eof:
  assumes "stdin s = []"
  shows "read_mode s = (Inl EOFError, s\<lparr>trace := trace s @ [Prompt mode_prompt]\<rparr>)"
  using py_input_Nil [OF assms, of mode_prompt]
  by (simp add: read_mode.simps [of s])

lemma read_mode_find:
  "fst (read_mode s) =
     (case find (\<lambda>x. x \<in> {''v'', ''V'', ''a'', ''A''}) (stdin s) of
        None \<Rightarrow> Inl EOFError
      | Some x \<Rightarrow> Inr (x \<in> {''a'', ''A''}))"
proof (induction "stdin s" arbitrary: s)
  case Nil
  from read_mode_eof [OF Nil [symmetric]] Nil [symmetric] show ?case
    by simp
next
  case (Cons x rest)
  show ?case
  proof (cases "x \<in> {''v'', ''V'', ''a'', ''A''}")
    case True
    from read_mode_accept [OF Cons.hyps(2) [symmetric] True] True Cons.hyps(2) [symmetric]
    show ?thesis by simp
  next
    case False
    let ?s' = "s\<lparr>stdin := rest, trace := trace s @ [Prompt mode_prompt, Print invalid_mode_message]\<rparr>"
    have "rest = stdin ?s'" by simp
    from Cons.hyps(1) [OF this] read_mode_reject [OF Cons.hyps(2) [symmetric] False]
      False Cons.hyps(2) [symmetric]
    show ?thesis by simp
  qed
qed

subsection \<open>Kinds of events\<close>

fun is_console :: "event \<Rightarrow> bool" where
  "is_console (Print _) = True"
| "is_console (Prompt _) = True"
| "is_console _ = False"

fun is_download :: "event \<Rightarrow> bool" where
  "is_download (YoutubeDL_download _ _) = True"
| "is_download _ = False"

fun is_open :: "event \<Rightarrow> bool" where
  "is_open (Startfile _) = True"
| "is_open (Popen _) = True"
| "is_open _ = False"

subsection \<open>The prompts depend on the unread input only\<close>

lemma stdin_same: "stdin s = xs \<Longrightarrow> s\<lparr>stdin := xs\<rparr> = s"
  by (cases s) simp

lemma read_mode_rel:
  assumes "stdin s1 = stdin s2"
  shows "\<exists>r rest ev.
           read_mode s1 = (r, s1\<lparr>stdin := rest, trace := trace s1 @ ev\<rparr>) \<and>
           read_mode s2 = (r, s2\<lparr>stdin := rest, trace := trace s2 @ ev\<rparr>) \<and>
           list_all is_console ev"
  using assms
proof (induction "stdin s1" arbitrary: s1 s2)
  case Nil
  then have e: "stdin s1 = []" "stdin s2 = []"
    by simp_all
  have "read_mode s1 = (Inl EOFError, s1\<lparr>stdin := [], trace := trace s1 @ [Prompt mode_prompt]\<rparr>)"
    using read_mode_eof [OF e(1)] stdin_same [OF e(1)] by simp
  moreover
  have "read_mode s2 = (Inl EOFError, s2\<lparr>stdin := [], trace := trace s2 @ [Prompt mode_prompt]\<rparr>)"
    using read_mode_eof [OF e(2)] stdin_same [OF e(2)] by simp
  ultimately show ?case
    by (intro exI [of _ "Inl EOFError"] exI [of _ "[]"] exI [of _ "[Prompt mode_prompt]"]) simp
next
  case (Cons x rest)
  then have e: "stdin s1 = x # rest" "stdin s2 = x # rest"
    by simp_all
  show ?case
  proof (cases "x \<in> {''v'', ''V'', ''a'', ''A''}")
    case True
    from read_mode_accept [OF e(1) True] read_mode_accept [OF e(2) True]
    show ?thesis
      by (intro exI [of _ "Inr (x \<in> {''a'', ''A''})"] exI [of _ rest]
            exI [of _ "[Prompt mode_prompt]"]) simp
  next
    case False
    let ?ev = "[Prompt mode_prompt, Print invalid_mode_message]"
    let ?t1 = "s1\<lparr>stdin := rest, trace := trace s1 @ ?ev\<rparr>"
    let ?t2 = "s2\<lparr>stdin := rest, trace := trace s2 @ ?ev\<rparr>"
    have "rest = stdin ?t1" and "stdin ?t1 = stdin ?t2"
      by simp_all
    from Cons.hyps(1) [OF this] obtain r rest' ev where
      r1: "read_mode ?t1 = (r, ?t1\<lparr>stdin := rest', trace := trace ?t1 @ ev\<rparr>)" and
      r2: "read_mode ?t2 = (r, ?t2\<lparr>stdin := rest', trace := trace ?t2 @ ev\<rparr>)" and
      c: "list_all is_console ev"
      by blast
    from read_mode_reject [OF e(1) False] r1
    have "read_mode s1 = (r, s1\<lparr>stdin := rest', trace := trace s1 @ (?ev @ ev)\<rparr>)"
      by simp
    moreover from read_mode_reject [OF e(2) False] r2
    have "read_mode s2 = (r, s2\<lparr>stdin := rest', trace := trace s2 @ (?ev @ ev)\<rparr>)"
      by simp
    moreover from c have "list_all is_console (?ev @ ev)"
      by simp
    ultimately show ?thesis
      by blast
  qed
qed

subsection \<open>What one call of get_user_input does\<close>

text \<open>The events every call starts with, and the text of its first prompt.\<close>

definition banner_events :: "event list" where
  "banner_events =
     [Print (equals 40), Print ''          YT-DLP Interactive Downloader'', Print (equals 40)]"

definition url_prompt :: string where
  "url_prompt = ''1. Please enter the video or playlist URL: ''"

lemma get_user_input_eof1:
  assumes "stdin s = []"
  shows "get_user_input w s =
           (Inl EOFError,
            s\<lparr>trace := trace s @
                 banner_events @ [Prompt url_prompt]\<rparr>)"
proof -
  let ?s3 = "py_print (equals 40) (py_print ''          YT-DLP Interactive Downloader''
               (py_print (equals 40) s))"
  have "stdin ?s3 = []"
    using assms by (simp add: stdin_py_print)
  note i1 = py_input_Nil [OF this, of "''1. Please enter the video or playlist URL: ''"]
  show ?thesis
    unfolding get_user_input_def Let_def
    apply (simp only: i1 prod.case sum.case)
    apply (simp add: py_print_def emit_def banner_events_def url_prompt_def)
    done
qed

lemma get_user_input_eof2:
  assumes "stdin s = [u]"
  shows "get_user_input w s =
           (Inl EOFError,
            s\<lparr>stdin := [],
              trace := trace s @
                 banner_events @
                 [Prompt url_prompt,
                  Prompt (path_prompt (path_str w (Resolve (DEFAULT_DOWNLOAD_PATH s))))]\<rparr>)"
proof -
  let ?s3 = "py_print (equals 40) (py_print ''          YT-DLP Interactive Downloader''
               (py_print (equals 40) s))"
  have "stdin ?s3 = [u]"
    using assms by (simp add: stdin_py_print)
  note i1 = py_input_Cons [OF this, of "''1. Please enter the video or playlist URL: ''"]
  let ?s4 = "?s3\<lparr>stdin := [],
      trace := trace ?s3 @ [Prompt ''1. Please enter the video or playlist URL: '']\<rparr>"
  have "stdin ?s4 = []" by simp
  note i2 = py_input_Nil [OF this, of "path_prompt (path_str w (Resolve (DEFAULT_DOWNLOAD_PATH ?s4)))"]
  show ?thesis
    unfolding get_user_input_def Let_def
    apply (simp only: i1 prod.case sum.case)
    apply (simp only: i2 prod.case sum.case)
    apply (simp add: py_print_def emit_def banner_events_def url_prompt_def)
    done
qed

lemma get_user_input_read:
  assumes "stdin s = u # p # rest"
  shows "get_user_input w s =
           (case read_mode
                   (s\<lparr>DEFAULT_DOWNLOAD_PATH := (if p \<noteq> [] then Path p else DEFAULT_DOWNLOAD_PATH s),
                      stdin := rest,
                      trace := trace s @
                        banner_events @
                        [Prompt url_prompt,
                         Prompt (path_prompt (path_str w (Resolve (DEFAULT_DOWNLOAD_PATH s))))]\<rparr>) of
              (Inl e, s7) \<Rightarrow> (Inl e, s7)
            | (Inr audio_only, s7) \<Rightarrow> (Inr (u, audio_only), s7))"
proof -
  let ?s3 = "py_print (equals 40) (py_print ''          YT-DLP Interactive Downloader''
               (py_print (equals 40) s))"
  have "stdin ?s3 = u # p # rest"
    using assms by (simp add: stdin_py_print)
  note i1 = py_input_Cons [OF this, of "''1. Please enter the video or playlist URL: ''"]
  let ?s4 = "?s3\<lparr>stdin := p # rest,
      trace := trace ?s3 @ [Prompt ''1. Please enter the video or playlist URL: '']\<rparr>"
  have "stdin ?s4 = p # rest" by simp
  note i2 = py_input_Cons [OF this, of "path_prompt (path_str w (Resolve (DEFAULT_DOWNLOAD_PATH ?s4)))"]
  let ?s5 = "?s4\<lparr>stdin := rest,
      trace := trace ?s4 @ [Prompt (path_prompt (path_str w (Resolve (DEFAULT_DOWNLOAD_PATH ?s4))))]\<rparr>"
  have s6: "(if p \<noteq> [] then ?s5\<lparr>DEFAULT_DOWNLOAD_PATH := Path p\<rparr> else ?s5) =
      s\<lparr>DEFAULT_DOWNLOAD_PATH := (if p \<noteq> [] then Path p else DEFAULT_DOWNLOAD_PATH s),
        stdin := rest,
        trace := trace s @
          banner_events @
          [Prompt url_prompt,
           Prompt (path_prompt (path_str w (Resolve (DEFAULT_DOWNLOAD_PATH s))))]\<rparr>"
    by (cases s) (simp add: py_print_def emit_def banner_events_def url_prompt_def)
  show ?thesis
    unfolding get_user_input_def Let_def
    apply (simp only: i1 prod.case sum.case)
    apply (simp only: i2 prod.case sum.case)
    apply (simp only: s6)
    done
qed

lemma get_user_input_rel:
  assumes "DEFAULT_DOWNLOAD_PATH s1 = DEFAULT_DOWNLOAD_PATH s2" and "stdin s1 = stdin s2"
  shows "\<exists>r d rest ev.
           get_user_input w s1 =
             (r, s1\<lparr>DEFAULT_DOWNLOAD_PATH := d, stdin := rest, trace := trace s1 @ ev\<rparr>) \<and>
           get_user_input w s2 =
             (r, s2\<lparr>DEFAULT_DOWNLOAD_PATH := d, stdin := rest, trace := trace s2 @ ev\<rparr>) \<and>
           list_all is_console ev"
proof (cases "stdin s1")
  case Nil
  with assms have e: "stdin s1 = []" "stdin s2 = []"
    by simp_all
  let ?ev = "banner_events @ [Prompt url_prompt]"
  have "get_user_input w s1 = (Inl EOFError,
      s1\<lparr>DEFAULT_DOWNLOAD_PATH := DEFAULT_DOWNLOAD_PATH s1, stdin := [], trace := trace s1 @ ?ev\<rparr>)"
    using get_user_input_eof1 [OF e(1), of w] e(1) by (cases s1) simp
  moreover
  have "get_user_input w s2 = (Inl EOFError,
      s2\<lparr>DEFAULT_DOWNLOAD_PATH := DEFAULT_DOWNLOAD_PATH s1, stdin := [], trace := trace s2 @ ?ev\<rparr>)"
    using get_user_input_eof1 [OF e(2), of w] e(2) assms(1) by (cases s2) simp
  moreover have "list_all is_console ?ev"
    by (simp add: banner_events_def)
  ultimately show ?thesis
    by blast
next
  case (Cons u rest1)
  note c1 = Cons
  show ?thesis
  proof (cases rest1)
    case Nil
    with c1 assms have e: "stdin s1 = [u]" "stdin s2 = [u]"
      by simp_all
    let ?ev = "banner_events @
      [Prompt url_prompt, Prompt (path_prompt (path_str w (Resolve (DEFAULT_DOWNLOAD_PATH s1))))]"
    have "get_user_input w s1 = (Inl EOFError,
        s1\<lparr>DEFAULT_DOWNLOAD_PATH := DEFAULT_DOWNLOAD_PATH s1, stdin := [], trace := trace s1 @ ?ev\<rparr>)"
      using get_user_input_eof2 [OF e(1), of w] by (cases s1) simp
    moreover
    have "get_user_input w s2 = (Inl EOFError,
        s2\<lparr>DEFAULT_DOWNLOAD_PATH := DEFAULT_DOWNLOAD_PATH s1, stdin := [], trace := trace s2 @ ?ev\<rparr>)"
      using get_user_input_eof2 [OF e(2), of w] assms(1) by (cases s2) simp
    moreover have "list_all is_console ?ev"
      by (simp add: banner_events_def)
    ultimately show ?thesis
      by blast
  next
    case (Cons p rest)
    with c1 assms have e: "stdin s1 = u # p # rest" "stdin s2 = u # p # rest"
      by simp_all
    let ?d = "if p \<noteq> [] then Path p else DEFAULT_DOWNLOAD_PATH s1"
    let ?ev = "banner_events @
      [Prompt url_prompt, Prompt (path_prompt (path_str w (Resolve (DEFAULT_DOWNLOAD_PATH s1))))]"
    let ?t1 = "s1\<lparr>DEFAULT_DOWNLOAD_PATH := ?d, stdin := rest, trace := trace s1 @ ?ev\<rparr>"
    let ?t2 = "s2\<lparr>DEFAULT_DOWNLOAD_PATH := ?d, stdin := rest, trace := trace s2 @ ?ev\<rparr>"
    have g1: "get_user_input w s1 =
        (case read_mode ?t1 of (Inl e, s7) \<Rightarrow> (Inl e, s7) | (Inr a, s7) \<Rightarrow> (Inr (u, a), s7))"
      using get_user_input_read [OF e(1), of w] by simp
    have g2: "get_user_input w s2 =
        (case read_mode ?t2 of (Inl e, s7) \<Rightarrow> (Inl e, s7) | (Inr a, s7) \<Rightarrow> (Inr (u, a), s7))"
      using get_user_input_read [OF e(2), of w] assms(1) by simp
    have "stdin ?t1 = stdin ?t2"
      by simp
    from read_mode_rel [OF this] obtain r rest' ev where
      r1: "read_mode ?t1 = (r, ?t1\<lparr>stdin := rest', trace := trace ?t1 @ ev\<rparr>)" and
      r2: "read_mode ?t2 = (r, ?t2\<lparr>stdin := rest', trace := trace ?t2 @ ev\<rparr>)" and
      c: "list_all is_console ev"
      by blast
    let ?r = "case r of Inl e \<Rightarrow> Inl e | Inr a \<Rightarrow> Inr (u, a)"
    have "get_user_input w s1 =
        (?r, s1\<lparr>DEFAULT_DOWNLOAD_PATH := ?d, stdin := rest', trace := trace s1 @ (?ev @ ev)\<rparr>)"
      unfolding g1 r1 by (cases r) simp_all
    moreover have "get_user_input w s2 =
        (?r, s2\<lparr>DEFAULT_DOWNLOAD_PATH := ?d, stdin := rest', trace := trace s2 @ (?ev @ ev)\<rparr>)"
      unfolding g2 r2 by (cases r) simp_all
    moreover from c have "list_all is_console (?ev @ ev)"
      by (simp add: banner_events_def)
    ultimately show ?thesis
      by blast
  qed
qed

subsection \<open>What the steps of the loop body do\<close>

lemma create_save_folder_ok:
  assumes "mkdir_raises w (DEFAULT_DOWNLOAD_PATH s) = None"
  shows "create_save_folder w s =
           (True, s\<lparr>trace := trace s @
                     [Mkdir (DEFAULT_DOWNLOAD_PATH s),
                      Print (saved_in_message (path_str w (Resolve (DEFAULT_DOWNLOAD_PATH s))))]\<rparr>)"
  using assms by (simp add: create_save_folder_def py_print_def emit_def)

lemma create_save_folder_failed:
  assumes "mkdir_raises w (DEFAULT_DOWNLOAD_PATH s) = Some e"
  shows "create_save_folder w s =
           (False, s\<lparr>trace := trace s @
                      [Mkdir (DEFAULT_DOWNLOAD_PATH s), Print (folder_failed_message e)]\<rparr>)"
  using assms by (simp add: create_save_folder_def py_print_def emit_def)

text \<open>The events of the download step up to and including the call of the library.\<close>

definition download_call :: "world \<Rightarrow> state \<Rightarrow> event" where
  "download_call w s =
     YoutubeDL_download (create_download_options w s (is_audio_only s) (ffmpeg_path s)) [url s]"

definition selected_events :: "world \<Rightarrow> state \<Rightarrow> event list" where
  "selected_events w s =
     [Print (dashes 40), Print (selected_message (is_audio_only s)), Print (dashes 40),
      download_call w s]"

lemma open_download_folder_ok:
  assumes "open_raises w (open_call w folder) = None"
  shows "open_download_folder w folder s =
           s\<lparr>trace := trace s @ [open_call w folder, Print (opening_message folder)]\<rparr>"
  using assms by (simp add: open_download_folder_def py_print_def emit_def)

lemma open_download_folder_failed:
  assumes "open_raises w (open_call w folder) = Some e"
  shows "open_download_folder w folder s =
           s\<lparr>trace := trace s @ [open_call w folder, Print (open_failed_message e)]\<rparr>"
  using assms by (simp add: open_download_folder_def py_print_def emit_def)

lemma start_download_completed:
  assumes "ydl_download w (create_download_options w s (is_audio_only s) (ffmpeg_path s)) [url s]
             = Completed"
  shows "start_download w s =
           open_download_folder w (path_str w (Resolve (DEFAULT_DOWNLOAD_PATH s)))
             (s\<lparr>ydl_options := create_download_options w s (is_audio_only s) (ffmpeg_path s),
                trace := trace s @ selected_events w s @
                  [Print (newline @ equals 40), Print completion_banner, Print (equals 40)]\<rparr>)"
  using assms
  by (simp add: start_download_def Let_def py_print_def emit_def selected_events_def
        download_call_def)

lemma start_download_download_error:
  assumes "ydl_download w (create_download_options w s (is_audio_only s) (ffmpeg_path s)) [url s]
             = DownloadError e"
  shows "start_download w s =
           s\<lparr>ydl_options := create_download_options w s (is_audio_only s) (ffmpeg_path s),
             trace := trace s @ selected_events w s @
               [Print (newline @ equals 40), Print download_failed_message,
                Print (error_details e), Print (equals 40)]\<rparr>"
  using assms
  by (simp add: start_download_def Let_def py_print_def emit_def selected_events_def
        download_call_def)

lemma start_download_other_exception:
  assumes "ydl_download w (create_download_options w s (is_audio_only s) (ffmpeg_path s)) [url s]
             = OtherException e"
  shows "start_download w s =
           s\<lparr>ydl_options := create_download_options w s (is_audio_only s) (ffmpeg_path s),
             trace := trace s @ selected_events w s @
               [Print (newline @ equals 40), Print (unexpected_error_message e),
                Print (equals 40)]\<rparr>"
  using assms
  by (simp add: start_download_def Let_def py_print_def emit_def selected_events_def
        download_call_def)

lemma ask_continue_eof:
  assumes "stdin s = []"
  shows "ask_continue s = (Inl EOFError, s\<lparr>trace := trace s @ [Prompt continue_prompt]\<rparr>)"
  using py_input_Nil [OF assms, of continue_prompt] by (simp add: ask_continue_def)

lemma ask_continue_stop:
  assumes "stdin s = c # rest" and "lower c \<in> set stop_tokens"
  shows "ask_continue s =
           (Inr Break, s\<lparr>cont := lower c, stdin := rest,
                         trace := trace s @ [Prompt continue_prompt, Print goodbye_message]\<rparr>)"
  using py_input_Cons [OF assms(1), of continue_prompt] assms(2)
  by (simp add: ask_continue_def py_print_def emit_def)

lemma ask_continue_go_on:
  assumes "stdin s = c # rest" and "lower c \<notin> set stop_tokens"
  shows "ask_continue s =
           (Inr Continue, s\<lparr>cont := lower c, stdin := rest,
                            trace := trace s @ [Prompt continue_prompt, Print separator]\<rparr>)"
  using py_input_Cons [OF assms(1), of continue_prompt] assms(2)
  by (simp add: ask_continue_def py_print_def emit_def)

lemma stop_token_iff:
  "lower c \<in> set stop_tokens \<longleftrightarrow> c \<in> {''no'', ''No'', ''nO'', ''NO'', ''n'', ''N'', arabic_no}"
  using lower_no [of c] lower_n [of c] lower_arabic_no [of c]
  by (auto simp: stop_tokens_def)

lemma loop_body_eof:
  assumes "get_user_input w s = (Inl e, s1)"
  shows "loop_body w s = (Inl e, s1)"
  using assms by (simp add: loop_body_def)

lemma loop_body_no_url:
  assumes "get_user_input w s = (Inr ([], a), s1)"
  shows "loop_body w s =
           (Inr Continue,
            s1\<lparr>url := [], is_audio_only := a, trace := trace s1 @ [Print no_url_message]\<rparr>)"
  using assms by (simp add: loop_body_def py_print_def emit_def)

lemma loop_body_folder_failed:
  assumes "get_user_input w s = (Inr (u, a), s1)" and "u \<noteq> []"
    and "mkdir_raises w (DEFAULT_DOWNLOAD_PATH s1) = Some e"
  shows "loop_body w s =
           (Inr Continue,
            s1\<lparr>url := u, is_audio_only := a,
               trace := trace s1 @
                 [Mkdir (DEFAULT_DOWNLOAD_PATH s1), Print (folder_failed_message e)]\<rparr>)"
proof -
  let ?s2 = "s1\<lparr>url := u, is_audio_only := a\<rparr>"
  have "mkdir_raises w (DEFAULT_DOWNLOAD_PATH ?s2) = Some e"
    using assms(3) by simp
  from create_save_folder_failed [OF this] assms(1,2) show ?thesis
    by (simp add: loop_body_def)
qed

lemma loop_body_download:
  assumes "get_user_input w s = (Inr (u, a), s1)" and "u \<noteq> []"
    and "mkdir_raises w (DEFAULT_DOWNLOAD_PATH s1) = None"
  shows "loop_body w s =
           ask_continue (start_download w
             (s1\<lparr>url := u, is_audio_only := a,
                trace := trace s1 @
                  [Mkdir (DEFAULT_DOWNLOAD_PATH s1),
                   Print (saved_in_message (path_str w (Resolve (DEFAULT_DOWNLOAD_PATH s1))))]\<rparr>))"
proof -
  let ?s2 = "s1\<lparr>url := u, is_audio_only := a\<rparr>"
  have "mkdir_raises w (DEFAULT_DOWNLOAD_PATH ?s2) = None"
    using assms(3) by simp
  from create_save_folder_ok [OF this] assms(1,2) show ?thesis
    by (simp add: loop_body_def)
qed

subsection \<open>Two runs that agree on what is carried\<close>

lemma create_download_options_global:
  "DEFAULT_DOWNLOAD_PATH s1 = DEFAULT_DOWNLOAD_PATH s2 \<Longrightarrow>
   create_download_options w s1 a f = create_download_options w s2 a f"
  by (simp add: create_download_options_def)

text \<open>
  What \<open>main\<close> keeps from one turn of its loop to the next, together with the input
  that is still unread.
\<close>

definition same_carried :: "state \<Rightarrow> state \<Rightarrow> bool" where
  "same_carried s1 s2 \<longleftrightarrow>
     DEFAULT_DOWNLOAD_PATH s1 = DEFAULT_DOWNLOAD_PATH s2 \<and>
     ffmpeg_path s1 = ffmpeg_path s2 \<and>
     stdin s1 = stdin s2"

lemma start_download_rel:
  assumes "DEFAULT_DOWNLOAD_PATH s1 = DEFAULT_DOWNLOAD_PATH s2"
    and "ffmpeg_path s1 = ffmpeg_path s2"
    and "url s1 = url s2" and "is_audio_only s1 = is_audio_only s2"
  shows "\<exists>opts ev.
           start_download w s1 = s1\<lparr>ydl_options := opts, trace := trace s1 @ ev\<rparr> \<and>
           start_download w s2 = s2\<lparr>ydl_options := opts, trace := trace s2 @ ev\<rparr>"
proof -
  let ?o1 = "create_download_options w s1 (is_audio_only s1) (ffmpeg_path s1)"
  let ?o2 = "create_download_options w s2 (is_audio_only s2) (ffmpeg_path s2)"
  have o: "?o2 = ?o1"
    using create_download_options_global [OF assms(1), of w] assms(2,4) by simp
  have sel: "selected_events w s2 = selected_events w s1"
    using o assms(3,4) by (simp add: selected_events_def download_call_def)
  show ?thesis
  proof (cases "ydl_download w ?o1 [url s1]")
    case Completed
    then have c2: "ydl_download w ?o2 [url s2] = Completed"
      using o assms(3) by simp
    let ?f = "path_str w (Resolve (DEFAULT_DOWNLOAD_PATH s1))"
    let ?done = "[Print (newline @ equals 40), Print completion_banner, Print (equals 40)]"
    let ?t1 = "s1\<lparr>ydl_options := ?o1, trace := trace s1 @ selected_events w s1 @ ?done\<rparr>"
    let ?t2 = "s2\<lparr>ydl_options := ?o1, trace := trace s2 @ selected_events w s1 @ ?done\<rparr>"
    have d1: "start_download w s1 = open_download_folder w ?f ?t1"
      using start_download_completed [OF Completed] by simp
    have d2: "start_download w s2 = open_download_folder w ?f ?t2"
      using start_download_completed [OF c2] o sel assms(1) by simp
    obtain m where m: "open_raises w (open_call w ?f) = None \<and> m = opening_message ?f \<or>
        (\<exists>e. open_raises w (open_call w ?f) = Some e \<and> m = open_failed_message e)"
      by (cases "open_raises w (open_call w ?f)") auto
    have "open_download_folder w ?f ?t1 = ?t1\<lparr>trace := trace ?t1 @ [open_call w ?f, Print m]\<rparr>"
      using m open_download_folder_ok [of w ?f ?t1] open_download_folder_failed [of w ?f _ ?t1]
      by auto
    moreover
    have "open_download_folder w ?f ?t2 = ?t2\<lparr>trace := trace ?t2 @ [open_call w ?f, Print m]\<rparr>"
      using m open_download_folder_ok [of w ?f ?t2] open_download_folder_failed [of w ?f _ ?t2]
      by auto
    ultimately have
      "start_download w s1 = s1\<lparr>ydl_options := ?o1,
         trace := trace s1 @ (selected_events w s1 @ ?done @ [open_call w ?f, Print m])\<rparr>"
      "start_download w s2 = s2\<lparr>ydl_options := ?o1,
         trace := trace s2 @ (selected_events w s1 @ ?done @ [open_call w ?f, Print m])\<rparr>"
      using d1 d2 by simp_all
    then show ?thesis
      by blast
  next
    case (DownloadError e)
    then have c2: "ydl_download w ?o2 [url s2] = DownloadError e"
      using o assms(3) by simp
    from start_download_download_error [OF DownloadError] start_download_download_error [OF c2]
    show ?thesis
      using o sel by auto
  next
    case (OtherException e)
    then have c2: "ydl_download w ?o2 [url s2] = OtherException e"
      using o assms(3) by simp
    from start_download_other_exception [OF OtherException] start_download_other_exception [OF c2]
    show ?thesis
      using o sel by auto
  qed
qed

lemma ask_continue_rel:
  assumes "same_carried s1 s2"
  shows "\<exists>r t1 t2 ev.
           ask_continue s1 = (r, t1) \<and> ask_continue s2 = (r, t2) \<and> same_carried t1 t2 \<and>
           trace t1 = trace s1 @ ev \<and> trace t2 = trace s2 @ ev"
proof (cases "stdin s1")
  case Nil
  with assms have e: "stdin s1 = []" "stdin s2 = []"
    by (simp_all add: same_carried_def)
  from ask_continue_eof [OF e(1)] ask_continue_eof [OF e(2)] assms show ?thesis
    by (simp add: same_carried_def)
next
  case (Cons c rest)
  with assms have e: "stdin s1 = c # rest" "stdin s2 = c # rest"
    by (simp_all add: same_carried_def)
  show ?thesis
  proof (cases "lower c \<in> set stop_tokens")
    case True
    from ask_continue_stop [OF e(1) True] ask_continue_stop [OF e(2) True] assms show ?thesis
      by (simp add: same_carried_def)
  next
    case False
    from ask_continue_go_on [OF e(1) False] ask_continue_go_on [OF e(2) False] assms show ?thesis
      by (simp add: same_carried_def)
  qed
qed

lemma loop_body_rel:
  assumes "same_carried s1 s2"
  shows "\<exists>r t1 t2 ev.
           loop_body w s1 = (r, t1) \<and> loop_body w s2 = (r, t2) \<and> same_carried t1 t2 \<and>
           trace t1 = trace s1 @ ev \<and> trace t2 = trace s2 @ ev"
proof -
  from assms have "DEFAULT_DOWNLOAD_PATH s1 = DEFAULT_DOWNLOAD_PATH s2" and "stdin s1 = stdin s2"
    and f: "ffmpeg_path s1 = ffmpeg_path s2"
    by (simp_all add: same_carried_def)
  from get_user_input_rel [OF this(1,2), of w] obtain r d rest ev where
    g1: "get_user_input w s1 =
           (r, s1\<lparr>DEFAULT_DOWNLOAD_PATH := d, stdin := rest, trace := trace s1 @ ev\<rparr>)" and
    g2: "get_user_input w s2 =
           (r, s2\<lparr>DEFAULT_DOWNLOAD_PATH := d, stdin := rest, trace := trace s2 @ ev\<rparr>)"
    by blast
  let ?u1 = "s1\<lparr>DEFAULT_DOWNLOAD_PATH := d, stdin := rest, trace := trace s1 @ ev\<rparr>"
  let ?u2 = "s2\<lparr>DEFAULT_DOWNLOAD_PATH := d, stdin := rest, trace := trace s2 @ ev\<rparr>"
  show ?thesis
  proof (cases r)
    case (Inl e)
    from loop_body_eof [OF g1 [unfolded Inl]] loop_body_eof [OF g2 [unfolded Inl]] f
    show ?thesis
      by (simp add: same_carried_def)
  next
    case (Inr ua)
    obtain u a where ua: "ua = (u, a)"
      by (cases ua)
    note h1 = g1 [unfolded Inr ua] and h2 = g2 [unfolded Inr ua]
    show ?thesis
    proof (cases "u = []")
      case True
      from loop_body_no_url [OF h1 [unfolded True]] loop_body_no_url [OF h2 [unfolded True]] f
      show ?thesis
        by (simp add: same_carried_def)
    next
      case False
      note u = False
      show ?thesis
      proof (cases "mkdir_raises w d")
        case (Some e)
        then have m1: "mkdir_raises w (DEFAULT_DOWNLOAD_PATH ?u1) = Some e"
          and m2: "mkdir_raises w (DEFAULT_DOWNLOAD_PATH ?u2) = Some e"
          by simp_all
        from loop_body_folder_failed [OF h1 u m1] loop_body_folder_failed [OF h2 u m2] f
        show ?thesis
          by (simp add: same_carried_def)
      next
        case None
        then have m1: "mkdir_raises w (DEFAULT_DOWNLOAD_PATH ?u1) = None"
          and m2: "mkdir_raises w (DEFAULT_DOWNLOAD_PATH ?u2) = None"
          by simp_all
        let ?mk = "[Mkdir d, Print (saved_in_message (path_str w (Resolve d)))]"
        let ?v1 = "?u1\<lparr>url := u, is_audio_only := a, trace := trace ?u1 @ ?mk\<rparr>"
        let ?v2 = "?u2\<lparr>url := u, is_audio_only := a, trace := trace ?u2 @ ?mk\<rparr>"
        have b1: "loop_body w s1 = ask_continue (start_download w ?v1)"
          using loop_body_download [OF h1 u m1] by simp
        have b2: "loop_body w s2 = ask_continue (start_download w ?v2)"
          using loop_body_download [OF h2 u m2] by simp
        have "DEFAULT_DOWNLOAD_PATH ?v1 = DEFAULT_DOWNLOAD_PATH ?v2"
          "ffmpeg_path ?v1 = ffmpeg_path ?v2" "url ?v1 = url ?v2"
          "is_audio_only ?v1 = is_audio_only ?v2"
          using f by simp_all
        from start_download_rel [OF this, of w] obtain opts ev2 where
          d1: "start_download w ?v1 = ?v1\<lparr>ydl_options := opts, trace := trace ?v1 @ ev2\<rparr>" and
          d2: "start_download w ?v2 = ?v2\<lparr>ydl_options := opts, trace := trace ?v2 @ ev2\<rparr>"
          by blast
        let ?x1 = "?v1\<lparr>ydl_options := opts, trace := trace ?v1 @ ev2\<rparr>"
        let ?x2 = "?v2\<lparr>ydl_options := opts, trace := trace ?v2 @ ev2\<rparr>"
        have "same_carried ?x1 ?x2"
          using f by (simp add: same_carried_def)
        from ask_continue_rel [OF this] obtain r' t1 t2 ev3 where
          a1: "ask_continue ?x1 = (r', t1)" and a2: "ask_continue ?x2 = (r', t2)" and
          sc: "same_carried t1 t2" and
          t1: "trace t1 = trace ?x1 @ ev3" and t2: "trace t2 = trace ?x2 @ ev3"
          by blast
        have "loop_body w s1 = (r', t1)" "loop_body w s2 = (r', t2)"
          using b1 b2 d1 d2 a1 a2 by simp_all
        moreover have "trace t1 = trace s1 @ (ev @ ?mk @ ev2 @ ev3)"
          "trace t2 = trace s2 @ (ev @ ?mk @ ev2 @ ev3)"
          using t1 t2 by simp_all
        ultimately show ?thesis
          using sc by blast
      qed
    qed
  qed
qed

lemma main_loop_rel:
  assumes "same_carried s1 s2"
  shows "\<exists>r t1 t2 ev.
           main_loop w s1 = (r, t1) \<and> main_loop w s2 = (r, t2) \<and> same_carried t1 t2 \<and>
           trace t1 = trace s1 @ ev \<and> trace t2 = trace s2 @ ev"
  using assms
proof (induction "length (stdin s1)" arbitrary: s1 s2 rule: less_induct)
  case less
  from loop_body_rel [OF less.prems, of w] obtain r t1 t2 ev where
    b1: "loop_body w s1 = (r, t1)" and b2: "loop_body w s2 = (r, t2)" and
    sc: "same_carried t1 t2" and
    t1: "trace t1 = trace s1 @ ev" and t2: "trace t2 = trace s2 @ ev"
    by blast
  show ?case
  proof (cases r)
    case (Inl e)
    with b1 b2 sc t1 t2 show ?thesis
      by (simp add: main_loop.simps [of w s1] main_loop.simps [of w s2])
  next
    case (Inr c)
    show ?thesis
    proof (cases c)
      case Break
      with Inr b1 b2 sc t1 t2 show ?thesis
        by (simp add: main_loop.simps [of w s1] main_loop.simps [of w s2])
    next
      case Continue
      with Inr b1 have "length (stdin t1) < length (stdin s1)"
        using loop_body_stdin [of w s1 Continue t1] by simp
      from less.hyps [OF this sc] obtain r' x1 x2 ev' where
        m1: "main_loop w t1 = (r', x1)" and m2: "main_loop w t2 = (r', x2)" and
        sc': "same_carried x1 x2" and
        x1: "trace x1 = trace t1 @ ev'" and x2: "trace x2 = trace t2 @ ev'"
        by blast
      have "main_loop w s1 = (r', x1)" "main_loop w s2 = (r', x2)"
        using Inr Continue b1 b2 m1 m2
        by (simp_all add: main_loop.simps [of w s1] main_loop.simps [of w s2])
      moreover have "trace x1 = trace s1 @ (ev @ ev')" "trace x2 = trace s2 @ (ev @ ev')"
        using x1 x2 t1 t2 by simp_all
      ultimately show ?thesis
        using sc' by blast
    qed
  qed
qed

subsection \<open>The candidate paths and the options dictionary\<close>




lemma create_download_options_audio:
  "create_download_options w s True f =
     [(''outtmpl'', Str (path_str w (Div (Resolve (DEFAULT_DOWNLOAD_PATH s)) ''%(title)s.%(ext)s''))),
      (''ignoreerrors'', Bool True),
      (''ffmpeg_location'', Str f),
      (''restrictfilenames'', Bool True),
      (''format'', Str ''bestaudio/best''),
      (''postprocessors'',
         PyList [PyDict [(''key'', Str ''FFmpegExtractAudio''),
                         (''preferredcodec'', Str ''mp3''),
                         (''preferredquality'', Str ''192'')]]),
      (''extract_audio'', Bool True)]"
  by (simp add: create_download_options_def dict_update_def audio_postprocessing_def)

lemma create_download_options_video:
  "create_download_options w s False f =
     [(''outtmpl'', Str (path_str w (Div (Resolve (DEFAULT_DOWNLOAD_PATH s)) ''%(title)s.%(ext)s''))),
      (''ignoreerrors'', Bool True),
      (''ffmpeg_location'', Str f),
      (''restrictfilenames'', Bool True),
      (''format'', Str ''bestvideo*+bestaudio/best'')]"
  by (simp add: create_download_options_def)

lemma get_user_input_accept:
  assumes "stdin s = u # p # m # rest" and "m \<in> {''v'', ''V'', ''a'', ''A''}"
  shows "get_user_input w s =
    (Inr (u, m \<in> {''a'', ''A''}),
     s\<lparr>DEFAULT_DOWNLOAD_PATH := (if p \<noteq> [] then Path p else DEFAULT_DOWNLOAD_PATH s),
       stdin := rest,
       trace := trace s @ banner_events @
         [Prompt url_prompt,
          Prompt (path_prompt (path_str w (Resolve (DEFAULT_DOWNLOAD_PATH s)))),
          Prompt mode_prompt]\<rparr>)"
proof -
  let ?s6 = "s\<lparr>DEFAULT_DOWNLOAD_PATH := (if p \<noteq> [] then Path p else DEFAULT_DOWNLOAD_PATH s),
      stdin := m # rest,
      trace := trace s @ banner_events @
        [Prompt url_prompt,
         Prompt (path_prompt (path_str w (Resolve (DEFAULT_DOWNLOAD_PATH s))))]\<rparr>"
  have "stdin ?s6 = m # rest"
    by simp
  from read_mode_accept [OF this assms(2)] get_user_input_read [OF assms(1), of w]
  show ?thesis
    by simp
qed

subsection \<open>How the trace grows\<close>

lemma read_mode_starts:
  "\<exists>ev. trace (snd (read_mode s)) = trace s @ Prompt mode_prompt # ev"
proof (cases "stdin s")
  case Nil
  from read_mode_eof [OF this] show ?thesis by simp
next
  case (Cons x rest)
  show ?thesis
  proof (cases "x \<in> {''v'', ''V'', ''a'', ''A''}")
    case True
    from read_mode_accept [OF Cons True] show ?thesis by simp
  next
    case False
    let ?t = "s\<lparr>stdin := rest, trace := trace s @ [Prompt mode_prompt, Print invalid_mode_message]\<rparr>"
    from read_mode_rel [of ?t ?t] obtain ev where "trace (snd (read_mode ?t)) = trace ?t @ ev"
      by auto
    with read_mode_reject [OF Cons False] show ?thesis by simp
  qed
qed

lemma get_user_input_starts:
  "\<exists>ev. trace (snd (get_user_input w s)) = trace s @ banner_events @ Prompt url_prompt # ev"
proof (cases "stdin s")
  case Nil
  from get_user_input_eof1 [OF this, of w] show ?thesis by simp
next
  case (Cons u rest1)
  note c1 = Cons
  show ?thesis
  proof (cases rest1)
    case Nil
    with c1 have "stdin s = [u]" by simp
    from get_user_input_eof2 [OF this, of w] show ?thesis by simp
  next
    case (Cons p rest)
    with c1 have e: "stdin s = u # p # rest" by simp
    let ?t = "s\<lparr>DEFAULT_DOWNLOAD_PATH := (if p \<noteq> [] then Path p else DEFAULT_DOWNLOAD_PATH s),
                 stdin := rest,
                 trace := trace s @ banner_events @
                   [Prompt url_prompt,
                    Prompt (path_prompt (path_str w (Resolve (DEFAULT_DOWNLOAD_PATH s))))]\<rparr>"
    obtain r s7 where rm: "read_mode ?t = (r, s7)"
      by (cases "read_mode ?t")
    from read_mode_starts [of ?t] rm obtain ev where "trace s7 = trace ?t @ Prompt mode_prompt # ev"
      by auto
    moreover have "snd (get_user_input w s) = s7"
      using get_user_input_read [OF e, of w] rm by (cases r) simp_all
    ultimately show ?thesis by simp
  qed
qed

lemma start_download_extends: "\<exists>ev. trace (start_download w s) = trace s @ ev"
  using start_download_rel [of s s w] by auto

lemma ask_continue_starts:
  "\<exists>ev. trace (snd (ask_continue s)) = trace s @ Prompt continue_prompt # ev"
proof (cases "stdin s")
  case Nil
  from ask_continue_eof [OF this] show ?thesis by simp
next
  case (Cons c rest)
  show ?thesis
  proof (cases "lower c \<in> set stop_tokens")
    case True
    from ask_continue_stop [OF Cons True] show ?thesis by simp
  next
    case False
    from ask_continue_go_on [OF Cons False] show ?thesis by simp
  qed
qed

lemma loop_body_extends:
  "\<exists>ev. trace (snd (loop_body w s)) = trace (snd (get_user_input w s)) @ ev"
proof -
  obtain r s1 where g: "get_user_input w s = (r, s1)"
    by (cases "get_user_input w s")
  show ?thesis
  proof (cases r)
    case (Inl e)
    from loop_body_eof [OF g [unfolded Inl]] g show ?thesis by simp
  next
    case (Inr ua)
    obtain u a where ua: "ua = (u, a)"
      by (cases ua)
    note h = g [unfolded Inr ua]
    show ?thesis
    proof (cases "u = []")
      case True
      from loop_body_no_url [OF h [unfolded True]] g show ?thesis by simp
    next
      case False
      show ?thesis
      proof (cases "mkdir_raises w (DEFAULT_DOWNLOAD_PATH s1)")
        case (Some e)
        from loop_body_folder_failed [OF h False Some] g show ?thesis by simp
      next
        case None
        let ?v = "s1\<lparr>url := u, is_audio_only := a,
                trace := trace s1 @
                  [Mkdir (DEFAULT_DOWNLOAD_PATH s1),
                   Print (saved_in_message (path_str w (Resolve (DEFAULT_DOWNLOAD_PATH s1))))]\<rparr>"
        obtain ev2 where "trace (start_download w ?v) = trace ?v @ ev2"
          using start_download_extends by blast
        moreover obtain ev3 where "trace (snd (ask_continue (start_download w ?v))) =
            trace (start_download w ?v) @ Prompt continue_prompt # ev3"
          using ask_continue_starts by blast
        ultimately show ?thesis
          using loop_body_download [OF h False None] g by simp
      qed
    qed
  qed
qed

lemma loop_body_starts:
  "\<exists>ev. trace (snd (loop_body w s)) = trace s @ banner_events @ Prompt url_prompt # ev"
proof -
  obtain ev1 where "trace (snd (get_user_input w s)) = trace s @ banner_events @ Prompt url_prompt # ev1"
    using get_user_input_starts by blast
  moreover obtain ev2 where "trace (snd (loop_body w s)) = trace (snd (get_user_input w s)) @ ev2"
    using loop_body_extends by blast
  ultimately show ?thesis by simp
qed

lemma main_loop_extends: "\<exists>ev. trace (snd (main_loop w s)) = trace s @ ev"
  using main_loop_rel [of s s w] by (auto simp: same_carried_def)

lemma main_loop_starts:
  "\<exists>ev. trace (snd (main_loop w s)) = trace s @ banner_events @ Prompt url_prompt # ev"
proof -
  obtain r t where b: "loop_body w s = (r, t)"
    by (cases "loop_body w s")
  obtain ev where t: "trace t = trace s @ banner_events @ Prompt url_prompt # ev"
    using loop_body_starts [of w s] b by auto
  show ?thesis
  proof (cases r)
    case (Inl e)
    with b t show ?thesis by (simp add: main_loop.simps [of w s])
  next
    case (Inr c)
    show ?thesis
    proof (cases c)
      case Break
      with Inr b t show ?thesis by (simp add: main_loop.simps [of w s])
    next
      case Continue
      obtain ev' where "trace (snd (main_loop w t)) = trace t @ ev'"
        using main_loop_extends by blast
      with Continue Inr b t show ?thesis by (simp add: main_loop.simps [of w s])
    qed
  qed
qed

lemma main_loop_break: "loop_body w s = (Inr Break, s') \<Longrightarrow> main_loop w s = (Inr (), s')"
  by (simp add: main_loop.simps [of w s])

lemma main_loop_continue: "loop_body w s = (Inr Continue, s') \<Longrightarrow> main_loop w s = main_loop w s'"
  by (simp add: main_loop.simps [of w s])

lemma main_loop_eof: "loop_body w s = (Inl e, s') \<Longrightarrow> main_loop w s = (Inl e, s')"
  by (simp add: main_loop.simps [of w s])

lemma is_open_open_call: "is_open (open_call w folder)"
  by (simp add: open_call_def)

lemma no_open_selected: "filter is_open (selected_events w s) = []"
  by (simp add: selected_events_def download_call_def)

lemma messages_differ: "download_failed_message \<noteq> unexpected_error_message e"
  by (simp add: download_failed_message_def unexpected_error_message_def emoji_cross_def)

subsection \<open>What a turn leaves unchanged\<close>

lemma console_not_download: "list_all is_console ev \<Longrightarrow> filter is_download ev = []"
proof (induction ev)
  case Nil
  show ?case by simp
next
  case (Cons e ev)
  then show ?case by (cases e) simp_all
qed

lemma get_user_input_frame:
  "\<exists>r d rest ev.
     get_user_input w s =
       (r, s\<lparr>DEFAULT_DOWNLOAD_PATH := d, stdin := rest, trace := trace s @ ev\<rparr>) \<and>
     filter is_download ev = []"
  using get_user_input_rel [of s s w] console_not_download by blast

lemma get_user_input_destination:
  "DEFAULT_DOWNLOAD_PATH (snd (get_user_input w s)) =
     (case stdin s of
        u # p # rest \<Rightarrow> (if p \<noteq> [] then Path p else DEFAULT_DOWNLOAD_PATH s)
      | _ \<Rightarrow> DEFAULT_DOWNLOAD_PATH s)"
proof (cases "stdin s")
  case Nil
  from get_user_input_eof1 [OF this, of w] Nil show ?thesis by simp
next
  case (Cons u rest1)
  note c1 = Cons
  show ?thesis
  proof (cases rest1)
    case Nil
    with c1 have e: "stdin s = [u]" by simp
    from get_user_input_eof2 [OF this, of w] e show ?thesis by simp
  next
    case (Cons p rest)
    with c1 have e: "stdin s = u # p # rest" by simp
    let ?t = "s\<lparr>DEFAULT_DOWNLOAD_PATH := (if p \<noteq> [] then Path p else DEFAULT_DOWNLOAD_PATH s),
                 stdin := rest,
                 trace := trace s @ banner_events @
                   [Prompt url_prompt,
                    Prompt (path_prompt (path_str w (Resolve (DEFAULT_DOWNLOAD_PATH s))))]\<rparr>"
    from read_mode_rel [of ?t ?t] obtain r rest' ev where
      rm: "read_mode ?t = (r, ?t\<lparr>stdin := rest', trace := trace ?t @ ev\<rparr>)"
      by auto
    have "DEFAULT_DOWNLOAD_PATH (snd (get_user_input w s)) =
        (if p \<noteq> [] then Path p else DEFAULT_DOWNLOAD_PATH s)"
      unfolding get_user_input_read [OF e, of w] rm by (cases r) simp_all
    with e show ?thesis by simp
  qed
qed




lemma get_user_input_downloads:
  "filter is_download (trace (snd (get_user_input w s))) = filter is_download (trace s) \<and>
   ydl_options (snd (get_user_input w s)) = ydl_options s"
proof -
  obtain r d rest ev where
    "get_user_input w s =
       (r, s\<lparr>DEFAULT_DOWNLOAD_PATH := d, stdin := rest, trace := trace s @ ev\<rparr>)"
    and "filter is_download ev = []"
    using get_user_input_frame by blast
  then show ?thesis by simp
qed


section \<open>A sample machine\<close>

text \<open>
  A world for concrete runs: a POSIX machine without ffmpeg, on which every outside call
  succeeds. \<open>str\<close> of a path is its text, the home directory is \<open>/home/user\<close> and
  resolving changes nothing (no symbolic links, absolute paths).
\<close>

fun posix_str :: "path \<Rightarrow> string" where
  "posix_str (Path p) = p"
| "posix_str Home = ''/home/user''"
| "posix_str (Div p name) = posix_str p @ ''/'' @ name"
| "posix_str (Resolve p) = posix_str p"

definition demo_world :: world where
  "demo_world =
     \<lparr>which = (\<lambda>_. None), path_exists = (\<lambda>_. False), exists_raises = (\<lambda>_. None),
      path_str = posix_str,
      sys_executable = ''/usr/bin/python3'', check_call_raises = (\<lambda>_. False),
      mkdir_raises = (\<lambda>_. None), platform_system = ''Linux'', open_raises = (\<lambda>_. None),
      ydl_download = (\<lambda>_ _. Completed)\<rparr>"



section \<open>The mode prompt\<close>

text \<open>
  C8. The mode prompt compares the lowered line with \<open>v\<close> and \<open>a\<close>: the accepted
  lines are exactly \<open>v\<close>, \<open>V\<close>, \<open>a\<close>, \<open>A\<close>. An accepted line ends the prompt
  with the flag true exactly for \<open>a\<close> and \<open>A\<close>; any other line, the empty one
  included, prints the complaint and asks again, the prompt being left only by an
  accepted line or by the end of the input. So the result is decided by the first
  accepted line of the input.
\<close>

theorem mode_prompt_accepts_v_and_a:
  "(lower x \<in> set [''v'', ''a''] \<longleftrightarrow> x \<in> {''v'', ''V'', ''a'', ''A''})
   \<and> (lower x = ''a'' \<longleftrightarrow> x \<in> {''a'', ''A''})
   \<and> (stdin s = x # rest \<and> x \<in> {''v'', ''V'', ''a'', ''A''} \<longrightarrow>
        read_mode s =
          (Inr (x \<in> {''a'', ''A''}), s\<lparr>stdin := rest, trace := trace s @ [Prompt mode_prompt]\<rparr>))
   \<and> (stdin s = x # rest \<and> x \<notin> {''v'', ''V'', ''a'', ''A''} \<longrightarrow>
        read_mode s =
          read_mode (s\<lparr>stdin := rest,
                       trace := trace s @ [Prompt mode_prompt, Print invalid_mode_message]\<rparr>))
   \<and> (stdin s = [] # rest \<longrightarrow>
        read_mode s =
          read_mode (s\<lparr>stdin := rest,
                       trace := trace s @ [Prompt mode_prompt, Print invalid_mode_message]\<rparr>))
   \<and> fst (read_mode s) =
         (case find (\<lambda>x. x \<in> {''v'', ''V'', ''a'', ''A''}) (stdin s) of
            None \<Rightarrow> Inl EOFError
          | Some x \<Rightarrow> Inr (x \<in> {''a'', ''A''}))"
proof (intro conjI impI)
  show "lower x \<in> set [''v'', ''a''] \<longleftrightarrow> x \<in> {''v'', ''V'', ''a'', ''A''}"
    by (rule mode_accepted)
next
  show "lower x = ''a'' \<longleftrightarrow> x \<in> {''a'', ''A''}"
    using lower_a [of x] by simp
next
  assume "stdin s = x # rest \<and> x \<in> {''v'', ''V'', ''a'', ''A''}"
  then show "read_mode s =
    (Inr (x \<in> {''a'', ''A''}), s\<lparr>stdin := rest, trace := trace s @ [Prompt mode_prompt]\<rparr>)"
    using read_mode_accept [of s x rest] by blast
next
  assume "stdin s = x # rest \<and> x \<notin> {''v'', ''V'', ''a'', ''A''}"
  then show "read_mode s =
    read_mode (s\<lparr>stdin := rest,
                 trace := trace s @ [Prompt mode_prompt, Print invalid_mode_message]\<rparr>)"
    using read_mode_reject [of s x rest] by blast
next
  assume "stdin s = [] # rest"
  then show "read_mode s =
    read_mode (s\<lparr>stdin := rest,
                 trace := trace s @ [Prompt mode_prompt, Print invalid_mode_message]\<rparr>)"
    using read_mode_reject [of s "[]" rest] by simp
next
  show "fst (read_mode s) =
         (case find (\<lambda>x. x \<in> {''v'', ''V'', ''a'', ''A''}) (stdin s) of
            None \<Rightarrow> Inl EOFError
          | Some x \<Rightarrow> Inr (x \<in> {''a'', ''A''}))"
    by (rule read_mode_find)
qed

theorem mode_prompt_accepts_v_and_a_witness:
  "read_mode (initial_state ['''', ''video'', ''A'', ''n'']) =
     (Inr True,
      (initial_state [''n''])
        \<lparr>trace := [Prompt mode_prompt, Print invalid_mode_message,
                   Prompt mode_prompt, Print invalid_mode_message,
                   Prompt mode_prompt]\<rparr>)"
  using mode_prompt_accepts_v_and_a [of "[]" "initial_state ['''', ''video'', ''A'', ''n'']" "[''video'', ''A'', ''n'']"]
    mode_prompt_accepts_v_and_a [of "''video''"
      "(initial_state [''video'', ''A'', ''n''])\<lparr>trace := [Prompt mode_prompt, Print invalid_mode_message]\<rparr>"
      "[''A'', ''n'']"]
    mode_prompt_accepts_v_and_a [of "''A''"
      "(initial_state [''A'', ''n''])\<lparr>trace := [Prompt mode_prompt, Print invalid_mode_message,
                   Prompt mode_prompt, Print invalid_mode_message]\<rparr>"
      "[''n'']"]
  by (simp add: initial_state_def)

section \<open>The binary locator\<close>




section \<open>The options builder\<close>

text \<open>
  C4. With the audio-only flag the dictionary has the entry \<open>postprocessors\<close>, one
  directive asking \<open>FFmpegExtractAudio\<close> for \<open>mp3\<close> at quality \<open>192\<close>, and
  \<open>extract_audio\<close> is true; without the flag it has neither key. This holds for every
  binary path, destination directory and machine.
\<close>

theorem audio_only_adds_postprocessing:
  "map_of (create_download_options w s True f) ''postprocessors'' =
     Some (PyList [PyDict [(''key'', Str ''FFmpegExtractAudio''),
                           (''preferredcodec'', Str ''mp3''),
                           (''preferredquality'', Str ''192'')]])
   \<and> map_of (create_download_options w s True f) ''extract_audio'' = Some (Bool True)
   \<and> map_of (create_download_options w s False f) ''postprocessors'' = None
   \<and> map_of (create_download_options w s False f) ''extract_audio'' = None"
proof -
  let ?audio = "create_download_options w s True f"
  let ?video = "create_download_options w s False f"
  have "map_of ?audio ''postprocessors'' =
     Some (PyList [PyDict [(''key'', Str ''FFmpegExtractAudio''),
                           (''preferredcodec'', Str ''mp3''),
                           (''preferredquality'', Str ''192'')]])"
    by (simp add: create_download_options_audio)
  moreover have "map_of ?audio ''extract_audio'' = Some (Bool True)"
    by (simp add: create_download_options_audio)
  moreover have "map_of ?video ''postprocessors'' = None"
    by (simp add: create_download_options_video)
  moreover have "map_of ?video ''extract_audio'' = None"
    by (simp add: create_download_options_video)
  ultimately show ?thesis
    by blast
qed

text \<open>
  C1, as the code has it. The dictionary is a function of the two parameters and of the
  destination directory, which the function reads from the module global
  \<open>DEFAULT_DOWNLOAD_PATH\<close> at the time of the call: two calls with the same flag and
  binary path return the same dictionary when the global holds the same path (on the same
  machine), whatever the rest of the program state. The global enters through the entry
  \<open>outtmpl\<close> only: every other entry is the same for all states and machines.
\<close>

theorem create_download_options_reads_destination:
  "(DEFAULT_DOWNLOAD_PATH s1 = DEFAULT_DOWNLOAD_PATH s2 \<longrightarrow>
      create_download_options w s1 a f = create_download_options w s2 a f)
   \<and> (k \<noteq> ''outtmpl'' \<longrightarrow>
        map_of (create_download_options w1 s1 a f) k = map_of (create_download_options w2 s2 a f) k)
   \<and> map_of (create_download_options w s a f) ''outtmpl'' =
        Some (Str (path_str w (Div (Resolve (DEFAULT_DOWNLOAD_PATH s)) ''%(title)s.%(ext)s'')))"
proof (intro conjI impI)
  assume "DEFAULT_DOWNLOAD_PATH s1 = DEFAULT_DOWNLOAD_PATH s2"
  then show "create_download_options w s1 a f = create_download_options w s2 a f"
    by (rule create_download_options_global)
next
  assume "k \<noteq> ''outtmpl''"
  then show "map_of (create_download_options w1 s1 a f) k =
    map_of (create_download_options w2 s2 a f) k"
    by (cases a) (simp_all add: create_download_options_audio create_download_options_video)
next
  show "map_of (create_download_options w s a f) ''outtmpl'' =
        Some (Str (path_str w (Div (Resolve (DEFAULT_DOWNLOAD_PATH s)) ''%(title)s.%(ext)s'')))"
    by (cases a) (simp_all add: create_download_options_audio create_download_options_video)
qed

theorem create_download_options_reads_destination_witness:
  "create_download_options demo_world
      ((initial_state [''n''])\<lparr>url := ''https://example.com/watch?v=abc'', cont := ''yes'',
         trace := [Print ''earlier'']\<rparr>) True ''ffmpeg''
     = create_download_options demo_world (initial_state []) True ''ffmpeg''
   \<and> map_of (create_download_options demo_world (initial_state []) True ''ffmpeg'') ''format''
     = map_of (create_download_options (demo_world\<lparr>path_str := (\<lambda>_. ''D:'')\<rparr>)
                ((initial_state [])\<lparr>DEFAULT_DOWNLOAD_PATH := Path ''/tmp/music''\<rparr>) True ''ffmpeg'')
         ''format''"
  using create_download_options_reads_destination
          [of "(initial_state [''n''])\<lparr>url := ''https://example.com/watch?v=abc'', cont := ''yes'',
                 trace := [Print ''earlier'']\<rparr>" "initial_state []" demo_world True "''ffmpeg''"
              "''format''" demo_world "demo_world\<lparr>path_str := (\<lambda>_. ''D:'')\<rparr>"]
        create_download_options_reads_destination
          [of "initial_state []" "(initial_state [])\<lparr>DEFAULT_DOWNLOAD_PATH := Path ''/tmp/music''\<rparr>"
              demo_world True "''ffmpeg''"
              "''format''" demo_world "demo_world\<lparr>path_str := (\<lambda>_. ''D:'')\<rparr>"]
  by (simp add: initial_state_def)

text \<open>
  C1 as stated fails: the same flag and binary path give two different dictionaries
  before and after the user has entered the destination \<open>/tmp/music\<close> at the prompt
  of \<open>get_user_input\<close>, which assigns the global.
\<close>

theorem create_download_options_not_transparent:
  "create_download_options demo_world
      (snd (get_user_input demo_world
              (initial_state [''https://example.com/watch?v=abc'', ''/tmp/music'', ''a''])))
      True ''ffmpeg''
   \<noteq> create_download_options demo_world
        (initial_state [''https://example.com/watch?v=abc'', ''/tmp/music'', ''a''])
        True ''ffmpeg''"
proof -
  let ?s = "initial_state [''https://example.com/watch?v=abc'', ''/tmp/music'', ''a'']"
  have "stdin ?s = ''https://example.com/watch?v=abc'' # ''/tmp/music'' # ''a'' # []"
    by (simp add: initial_state_def)
  from get_user_input_accept [OF this, of demo_world]
  have "DEFAULT_DOWNLOAD_PATH (snd (get_user_input demo_world ?s)) = Path ''/tmp/music''"
    by simp
  then have "map_of (create_download_options demo_world (snd (get_user_input demo_world ?s))
               True ''ffmpeg'') ''outtmpl'' = Some (Str ''/tmp/music/%(title)s.%(ext)s'')"
    by (simp add: create_download_options_audio demo_world_def)
  moreover
  have "map_of (create_download_options demo_world ?s True ''ffmpeg'') ''outtmpl'' =
          Some (Str ''/home/user/Downloads/YT_Downloads/%(title)s.%(ext)s'')"
    by (simp add: create_download_options_audio demo_world_def initial_state_def)
  ultimately show ?thesis
    by auto
qed

section \<open>The download step\<close>

text \<open>
  C3. Whenever the download attempt runs, the trace of the step is: the three lines
  naming the selected type, the call of the library, and then
  \<^item> on success the completion banner between two rules, the call of the folder opener
    on the resolved destination directory and the opener's own line;
  \<^item> on the library's \<open>DownloadError\<close> the failure message that names the download,
    with the error details;
  \<^item> on any other exception the message of the unexpected error, a different text.
  In the two failure cases no opener call enters the trace. Whatever the outcome, the
  turn of the loop goes on with the continue prompt: the loop body is \<open>ask_continue\<close>
  applied to the state after the step, and \<open>ask_continue\<close> begins by writing its
  prompt.
\<close>

theorem download_outcome_is_reported:
  "(ydl_download w (create_download_options w s (is_audio_only s) (ffmpeg_path s)) [url s]
      = Completed \<longrightarrow>
      trace (start_download w s) =
        trace s @ selected_events w s @
        [Print (newline @ equals 40), Print completion_banner, Print (equals 40),
         open_call w (path_str w (Resolve (DEFAULT_DOWNLOAD_PATH s))),
         Print (case open_raises w (open_call w (path_str w (Resolve (DEFAULT_DOWNLOAD_PATH s)))) of
                  None \<Rightarrow> opening_message (path_str w (Resolve (DEFAULT_DOWNLOAD_PATH s)))
                | Some x \<Rightarrow> open_failed_message x)])
   \<and> (ydl_download w (create_download_options w s (is_audio_only s) (ffmpeg_path s)) [url s]
        = DownloadError e \<longrightarrow>
      trace (start_download w s) =
        trace s @ selected_events w s @
        [Print (newline @ equals 40), Print download_failed_message,
         Print (error_details e), Print (equals 40)])
   \<and> (ydl_download w (create_download_options w s (is_audio_only s) (ffmpeg_path s)) [url s]
        = OtherException e \<longrightarrow>
      trace (start_download w s) =
        trace s @ selected_events w s @
        [Print (newline @ equals 40), Print (unexpected_error_message e), Print (equals 40)])
   \<and> (ydl_download w (create_download_options w s (is_audio_only s) (ffmpeg_path s)) [url s]
        \<noteq> Completed \<longrightarrow>
      filter is_open (trace (start_download w s)) = filter is_open (trace s))
   \<and> download_failed_message \<noteq> unexpected_error_message e'
   \<and> is_open (open_call w folder)
   \<and> filter is_open (selected_events w s) = []
   \<and> (get_user_input w s0 = (Inr (u, a), s1) \<and> u \<noteq> [] \<and>
        mkdir_raises w (DEFAULT_DOWNLOAD_PATH s1) = None \<longrightarrow>
      loop_body w s0 =
        ask_continue (start_download w
          (s1\<lparr>url := u, is_audio_only := a,
             trace := trace s1 @
               [Mkdir (DEFAULT_DOWNLOAD_PATH s1),
                Print (saved_in_message (path_str w (Resolve (DEFAULT_DOWNLOAD_PATH s1))))]\<rparr>)))
   \<and> (\<exists>ev. trace (snd (ask_continue s')) = trace s' @ Prompt continue_prompt # ev)"
proof (intro conjI impI)
  let ?r = "ydl_download w (create_download_options w s (is_audio_only s) (ffmpeg_path s)) [url s]"
  {
    assume c: "?r = Completed"
    let ?f = "path_str w (Resolve (DEFAULT_DOWNLOAD_PATH s))"
    let ?t = "s\<lparr>ydl_options := create_download_options w s (is_audio_only s) (ffmpeg_path s),
                trace := trace s @ selected_events w s @
                  [Print (newline @ equals 40), Print completion_banner, Print (equals 40)]\<rparr>"
    have "open_download_folder w ?f ?t =
        ?t\<lparr>trace := trace ?t @
          [open_call w ?f,
           Print (case open_raises w (open_call w ?f) of
                    None \<Rightarrow> opening_message ?f | Some x \<Rightarrow> open_failed_message x)]\<rparr>"
      by (cases "open_raises w (open_call w ?f)")
         (simp_all add: open_download_folder_ok open_download_folder_failed)
    with start_download_completed [OF c]
    show "trace (start_download w s) =
        trace s @ selected_events w s @
        [Print (newline @ equals 40), Print completion_banner, Print (equals 40),
         open_call w ?f,
         Print (case open_raises w (open_call w ?f) of
                  None \<Rightarrow> opening_message ?f | Some x \<Rightarrow> open_failed_message x)]"
      by simp
  }
  {
    assume "?r = DownloadError e"
    from start_download_download_error [OF this]
    show "trace (start_download w s) =
        trace s @ selected_events w s @
        [Print (newline @ equals 40), Print download_failed_message,
         Print (error_details e), Print (equals 40)]"
      by simp
  }
  {
    assume "?r = OtherException e"
    from start_download_other_exception [OF this]
    show "trace (start_download w s) =
        trace s @ selected_events w s @
        [Print (newline @ equals 40), Print (unexpected_error_message e), Print (equals 40)]"
      by simp
  }
  {
    assume n: "?r \<noteq> Completed"
    show "filter is_open (trace (start_download w s)) = filter is_open (trace s)"
    proof (cases ?r)
      case Completed
      with n show ?thesis by simp
    next
      case (DownloadError x)
      from start_download_download_error [OF this] show ?thesis
        by (simp add: no_open_selected)
    next
      case (OtherException x)
      from start_download_other_exception [OF this] show ?thesis
        by (simp add: no_open_selected)
    qed
  }
  show "download_failed_message \<noteq> unexpected_error_message e'"
    by (rule messages_differ)
  show "is_open (open_call w folder)"
    by (rule is_open_open_call)
  show "filter is_open (selected_events w s) = []"
    by (rule no_open_selected)
  {
    assume "get_user_input w s0 = (Inr (u, a), s1) \<and> u \<noteq> [] \<and>
        mkdir_raises w (DEFAULT_DOWNLOAD_PATH s1) = None"
    then show "loop_body w s0 =
        ask_continue (start_download w
          (s1\<lparr>url := u, is_audio_only := a,
             trace := trace s1 @
               [Mkdir (DEFAULT_DOWNLOAD_PATH s1),
                Print (saved_in_message (path_str w (Resolve (DEFAULT_DOWNLOAD_PATH s1))))]\<rparr>))"
      using loop_body_download [of w s0 u a s1] by blast
  }
  show "\<exists>ev. trace (snd (ask_continue s')) = trace s' @ Prompt continue_prompt # ev"
    by (rule ask_continue_starts)
qed

theorem download_outcome_is_reported_witness:
  "trace (start_download (demo_world\<lparr>ydl_download := (\<lambda>_ _. DownloadError ''Unsupported URL'')\<rparr>)
            ((initial_state [''n''])\<lparr>url := ''https://example.com/watch?v=abc'',
               ffmpeg_path := ''ffmpeg''\<rparr>)) =
     [Print (dashes 40), Print (selected_message False), Print (dashes 40),
      YoutubeDL_download
        [(''outtmpl'', Str ''/home/user/Downloads/YT_Downloads/%(title)s.%(ext)s''),
         (''ignoreerrors'', Bool True), (''ffmpeg_location'', Str ''ffmpeg''),
         (''restrictfilenames'', Bool True), (''format'', Str ''bestvideo*+bestaudio/best'')]
        [''https://example.com/watch?v=abc''],
      Print (newline @ equals 40), Print download_failed_message,
      Print (error_details ''Unsupported URL''), Print (equals 40)]
   \<and> trace (start_download demo_world
            ((initial_state [''n''])\<lparr>url := ''https://example.com/watch?v=abc'',
               ffmpeg_path := ''ffmpeg''\<rparr>)) =
     [Print (dashes 40), Print (selected_message False), Print (dashes 40),
      YoutubeDL_download
        [(''outtmpl'', Str ''/home/user/Downloads/YT_Downloads/%(title)s.%(ext)s''),
         (''ignoreerrors'', Bool True), (''ffmpeg_location'', Str ''ffmpeg''),
         (''restrictfilenames'', Bool True), (''format'', Str ''bestvideo*+bestaudio/best'')]
        [''https://example.com/watch?v=abc''],
      Print (newline @ equals 40), Print completion_banner, Print (equals 40),
      Popen [''xdg-open'', ''/home/user/Downloads/YT_Downloads''],
      Print (opening_message ''/home/user/Downloads/YT_Downloads'')]"
  using download_outcome_is_reported
          [of "demo_world\<lparr>ydl_download := (\<lambda>_ _. DownloadError ''Unsupported URL'')\<rparr>"
              "(initial_state [''n''])\<lparr>url := ''https://example.com/watch?v=abc'',
                 ffmpeg_path := ''ffmpeg''\<rparr>"
              "''Unsupported URL''"]
        download_outcome_is_reported
          [of demo_world
              "(initial_state [''n''])\<lparr>url := ''https://example.com/watch?v=abc'',
                 ffmpeg_path := ''ffmpeg''\<rparr>"]
  by (simp add: demo_world_def initial_state_def selected_events_def download_call_def
        create_download_options_video open_call_def)

section \<open>The continue prompt\<close>

text \<open>
  C9. The answer at the continue prompt is lowered and compared with the three stop
  tokens \<open>no\<close>, \<open>n\<close> and the Arabic word: the answers that stop are exactly the
  casings of \<open>no\<close> and \<open>n\<close> and the Arabic word itself. Such an answer prints the
  farewell and breaks the loop, which returns; every other answer, the empty line
  included, prints the separator and the loop starts its next turn with the banner and
  the URL prompt. The prompt is the end of every turn that has run the download step: in
  a turn with a URL and a destination directory, the loop body is \<open>ask_continue\<close> on
  the state after the step, the answer is the next unread line, and the loop returns or
  goes on by that answer.
\<close>

theorem continue_prompt_stops_on_whitelist:
  "(lower c \<in> set stop_tokens \<longleftrightarrow> c \<in> {''no'', ''No'', ''nO'', ''NO'', ''n'', ''N'', arabic_no})
   \<and> (stdin s = c # rest \<and> c \<in> {''no'', ''No'', ''nO'', ''NO'', ''n'', ''N'', arabic_no} \<longrightarrow>
        ask_continue s =
          (Inr Break,
           s\<lparr>cont := lower c, stdin := rest,
             trace := trace s @ [Prompt continue_prompt, Print goodbye_message]\<rparr>))
   \<and> (stdin s = c # rest \<and> c \<notin> {''no'', ''No'', ''nO'', ''NO'', ''n'', ''N'', arabic_no} \<longrightarrow>
        ask_continue s =
          (Inr Continue,
           s\<lparr>cont := lower c, stdin := rest,
             trace := trace s @ [Prompt continue_prompt, Print separator]\<rparr>))
   \<and> (stdin s = [] # rest \<longrightarrow>
        ask_continue s =
          (Inr Continue,
           s\<lparr>cont := [], stdin := rest,
             trace := trace s @ [Prompt continue_prompt, Print separator]\<rparr>))
   \<and> (loop_body w s0 = (Inr Break, s') \<longrightarrow> main_loop w s0 = (Inr (), s'))
   \<and> (loop_body w s0 = (Inr Continue, s') \<longrightarrow>
        main_loop w s0 = main_loop w s' \<and>
        (\<exists>ev. trace (snd (main_loop w s')) = trace s' @ banner_events @ Prompt url_prompt # ev))
   \<and> (get_user_input w s0 = (Inr (u, a), s1) \<and> u \<noteq> [] \<and>
        mkdir_raises w (DEFAULT_DOWNLOAD_PATH s1) = None \<and> stdin s1 = c # rest \<longrightarrow>
        (let d = start_download w
                   (s1\<lparr>url := u, is_audio_only := a,
                      trace := trace s1 @
                        [Mkdir (DEFAULT_DOWNLOAD_PATH s1),
                         Print (saved_in_message
                                  (path_str w (Resolve (DEFAULT_DOWNLOAD_PATH s1))))]\<rparr>)
         in loop_body w s0 = ask_continue d \<and>
            stdin d = c # rest \<and>
            main_loop w s0 =
              (if c \<in> {''no'', ''No'', ''nO'', ''NO'', ''n'', ''N'', arabic_no}
               then (Inr (),
                     d\<lparr>cont := lower c, stdin := rest,
                       trace := trace d @ [Prompt continue_prompt, Print goodbye_message]\<rparr>)
               else main_loop w
                     (d\<lparr>cont := lower c, stdin := rest,
                        trace := trace d @ [Prompt continue_prompt, Print separator]\<rparr>))))"
proof (intro conjI impI)
  show iff: "lower c \<in> set stop_tokens \<longleftrightarrow>
      c \<in> {''no'', ''No'', ''nO'', ''NO'', ''n'', ''N'', arabic_no}"
    by (rule stop_token_iff)
  {
    assume "stdin s = c # rest \<and> c \<in> {''no'', ''No'', ''nO'', ''NO'', ''n'', ''N'', arabic_no}"
    with iff show "ask_continue s =
          (Inr Break,
           s\<lparr>cont := lower c, stdin := rest,
             trace := trace s @ [Prompt continue_prompt, Print goodbye_message]\<rparr>)"
      using ask_continue_stop [of s c rest] by blast
  }
  {
    assume "stdin s = c # rest \<and> c \<notin> {''no'', ''No'', ''nO'', ''NO'', ''n'', ''N'', arabic_no}"
    with iff show "ask_continue s =
          (Inr Continue,
           s\<lparr>cont := lower c, stdin := rest,
             trace := trace s @ [Prompt continue_prompt, Print separator]\<rparr>)"
      using ask_continue_go_on [of s c rest] by blast
  }
  {
    assume e: "stdin s = [] # rest"
    have "lower [] \<notin> set stop_tokens"
      by (simp add: stop_tokens_def lower_def arabic_no_def)
    from ask_continue_go_on [OF e this] show "ask_continue s =
          (Inr Continue,
           s\<lparr>cont := [], stdin := rest,
             trace := trace s @ [Prompt continue_prompt, Print separator]\<rparr>)"
      by (simp add: lower_def)
  }
  {
    assume "loop_body w s0 = (Inr Break, s')"
    then show "main_loop w s0 = (Inr (), s')"
      by (rule main_loop_break)
  }
  {
    assume "loop_body w s0 = (Inr Continue, s')"
    then show "main_loop w s0 = main_loop w s'"
      by (rule main_loop_continue)
  }
  show "\<exists>ev. trace (snd (main_loop w s')) = trace s' @ banner_events @ Prompt url_prompt # ev"
    by (rule main_loop_starts)
  {
    assume h: "get_user_input w s0 = (Inr (u, a), s1) \<and> u \<noteq> [] \<and>
        mkdir_raises w (DEFAULT_DOWNLOAD_PATH s1) = None \<and> stdin s1 = c # rest"
    let ?v = "s1\<lparr>url := u, is_audio_only := a,
                trace := trace s1 @
                  [Mkdir (DEFAULT_DOWNLOAD_PATH s1),
                   Print (saved_in_message (path_str w (Resolve (DEFAULT_DOWNLOAD_PATH s1))))]\<rparr>"
    let ?d = "start_download w ?v"
    from h have b: "loop_body w s0 = ask_continue ?d"
      using loop_body_download [of w s0 u a s1] by blast
    from h have e: "stdin ?d = c # rest"
      by (simp add: stdin_start_download)
    have "main_loop w s0 =
        (if c \<in> {''no'', ''No'', ''nO'', ''NO'', ''n'', ''N'', arabic_no}
         then (Inr (),
               ?d\<lparr>cont := lower c, stdin := rest,
                 trace := trace ?d @ [Prompt continue_prompt, Print goodbye_message]\<rparr>)
         else main_loop w
               (?d\<lparr>cont := lower c, stdin := rest,
                  trace := trace ?d @ [Prompt continue_prompt, Print separator]\<rparr>))"
    proof (cases "c \<in> {''no'', ''No'', ''nO'', ''NO'', ''n'', ''N'', arabic_no}")
      case True
      with iff have "lower c \<in> set stop_tokens"
        by blast
      from ask_continue_stop [OF e this] b True show ?thesis
        by (simp add: main_loop_break)
    next
      case False
      with iff have "lower c \<notin> set stop_tokens"
        by blast
      from ask_continue_go_on [OF e this] b False show ?thesis
        by (simp add: main_loop_continue)
    qed
    with b e show "let d = start_download w ?v
         in loop_body w s0 = ask_continue d \<and>
            stdin d = c # rest \<and>
            main_loop w s0 =
              (if c \<in> {''no'', ''No'', ''nO'', ''NO'', ''n'', ''N'', arabic_no}
               then (Inr (),
                     d\<lparr>cont := lower c, stdin := rest,
                       trace := trace d @ [Prompt continue_prompt, Print goodbye_message]\<rparr>)
               else main_loop w
                     (d\<lparr>cont := lower c, stdin := rest,
                        trace := trace d @ [Prompt continue_prompt, Print separator]\<rparr>))"
      by (simp add: Let_def)
  }
qed

theorem continue_prompt_stops_on_whitelist_witness:
  "ask_continue (initial_state [''NO'', ''x'']) =
     (Inr Break,
      (initial_state [''x''])\<lparr>cont := ''no'',
         trace := [Prompt continue_prompt, Print goodbye_message]\<rparr>)
   \<and> ask_continue (initial_state [''yes'', ''x'']) =
     (Inr Continue,
      (initial_state [''x''])\<lparr>cont := ''yes'',
         trace := [Prompt continue_prompt, Print separator]\<rparr>)
   \<and> ask_continue (initial_state ['''', ''x'']) =
     (Inr Continue,
      (initial_state [''x''])\<lparr>trace := [Prompt continue_prompt, Print separator]\<rparr>)
   \<and> fst (main_loop demo_world
             (initial_state [''https://example.com/watch?v=abc'', '''', ''v'', ''NO''])) = Inr ()
   \<and> cont (snd (main_loop demo_world
             (initial_state [''https://example.com/watch?v=abc'', '''', ''v'', ''NO'']))) = ''no''
   \<and> fst (main_loop demo_world
             (initial_state [''https://example.com/watch?v=abc'', '''', ''v'', ''''])) = Inl EOFError"
proof -
  let ?url = "''https://example.com/watch?v=abc''"
  let ?asked = "banner_events @
      [Prompt url_prompt, Prompt (path_prompt ''/home/user/Downloads/YT_Downloads''),
       Prompt mode_prompt]"
  have a: "ask_continue (initial_state [''NO'', ''x'']) =
     (Inr Break,
      (initial_state [''x''])\<lparr>cont := ''no'',
         trace := [Prompt continue_prompt, Print goodbye_message]\<rparr>)
   \<and> ask_continue (initial_state [''yes'', ''x'']) =
     (Inr Continue,
      (initial_state [''x''])\<lparr>cont := ''yes'',
         trace := [Prompt continue_prompt, Print separator]\<rparr>)
   \<and> ask_continue (initial_state ['''', ''x'']) =
     (Inr Continue,
      (initial_state [''x''])\<lparr>trace := [Prompt continue_prompt, Print separator]\<rparr>)"
    using continue_prompt_stops_on_whitelist [of "''NO''" "initial_state [''NO'', ''x'']" "[''x'']"]
      continue_prompt_stops_on_whitelist [of "''yes''" "initial_state [''yes'', ''x'']" "[''x'']"]
      continue_prompt_stops_on_whitelist [of "[]" "initial_state ['''', ''x'']" "[''x'']"]
    by (simp add: initial_state_def lower_def lower_char_def upper_lower_def arabic_no_def)
  have g: "get_user_input demo_world (initial_state [?url, '''', ''v'', c]) =
      (Inr (?url, False), (initial_state [c])\<lparr>trace := ?asked\<rparr>)" for c
    using get_user_input_accept
            [of "initial_state [?url, '''', ''v'', c]" ?url "[]" "''v''" "[c]" demo_world]
    by (simp add: initial_state_def demo_world_def)
  have h: "get_user_input demo_world (initial_state [?url, '''', ''v'', c]) =
        (Inr (?url, False), (initial_state [c])\<lparr>trace := ?asked\<rparr>) \<and>
      ?url \<noteq> [] \<and>
      mkdir_raises demo_world
        (DEFAULT_DOWNLOAD_PATH ((initial_state [c])\<lparr>trace := ?asked\<rparr>)) = None \<and>
      stdin ((initial_state [c])\<lparr>trace := ?asked\<rparr>) = c # []" for c
    using g [of c] by (simp add: demo_world_def initial_state_def)
  note turn = continue_prompt_stops_on_whitelist
      [THEN conjunct2, THEN conjunct2, THEN conjunct2, THEN conjunct2, THEN conjunct2,
       THEN conjunct2, THEN mp, OF h, unfolded Let_def]
  have stop: "''NO'' \<in> {''no'', ''No'', ''nO'', ''NO'', ''n'', ''N'', arabic_no}"
    by simp
  have go_on: "[] \<notin> {''no'', ''No'', ''nO'', ''NO'', ''n'', ''N'', arabic_no}"
    by (simp add: arabic_no_def)
  from turn [of "''NO''"] stop
  have b: "fst (main_loop demo_world (initial_state [?url, '''', ''v'', ''NO''])) = Inr () \<and>
      cont (snd (main_loop demo_world (initial_state [?url, '''', ''v'', ''NO'']))) = ''no''"
    by (simp add: lower_def lower_char_def upper_lower_def)
  let ?d = "start_download demo_world
      ((initial_state [[]])\<lparr>trace := ?asked\<rparr>
         \<lparr>url := ?url, is_audio_only := False,
          trace := trace ((initial_state [[]])\<lparr>trace := ?asked\<rparr>) @
            [Mkdir (DEFAULT_DOWNLOAD_PATH ((initial_state [[]])\<lparr>trace := ?asked\<rparr>)),
             Print (saved_in_message
                      (path_str demo_world
                         (Resolve (DEFAULT_DOWNLOAD_PATH
                                     ((initial_state [[]])\<lparr>trace := ?asked\<rparr>)))))]\<rparr>)"
  let ?x = "?d\<lparr>cont := lower [], stdin := [],
      trace := trace ?d @ [Prompt continue_prompt, Print separator]\<rparr>"
  from turn [of "[]"] go_on
  have "main_loop demo_world (initial_state [?url, '''', ''v'', '''']) = main_loop demo_world ?x"
    by simp
  moreover have "stdin ?x = []"
    by simp
  from get_user_input_eof1 [OF this, of demo_world]
  have "fst (main_loop demo_world ?x) = Inl EOFError"
    by (simp add: loop_body_eof main_loop_eof)
  ultimately
  have c: "fst (main_loop demo_world (initial_state [?url, '''', ''v'', ''''])) = Inl EOFError"
    by simp
  from a b c show ?thesis
    by blast
qed

section \<open>What is carried from one turn of the loop to the next\<close>



section \<open>Failure to create the destination directory\<close>

text \<open>
  C6. In a turn whose URL is not empty and whose \<open>mkdir\<close> raises, the failure is
  printed and the turn ends with \<open>continue\<close>: the trace gains the \<open>mkdir\<close> call and the
  failure line and nothing more, so no call of the download library enters it, and the
  options are not even built (\<open>ydl_options\<close> keeps its value). The loop goes on from the
  state of that turn, and its next events are the banner and the URL prompt.
\<close>

theorem folder_failure_aborts_turn:
  "get_user_input w s = (Inr (u, a), s1) \<and> u \<noteq> [] \<and>
   mkdir_raises w (DEFAULT_DOWNLOAD_PATH s1) = Some e \<longrightarrow>
     loop_body w s =
       (Inr Continue,
        s1\<lparr>url := u, is_audio_only := a,
           trace := trace s1 @
             [Mkdir (DEFAULT_DOWNLOAD_PATH s1), Print (folder_failed_message e)]\<rparr>)
     \<and> filter is_download (trace (snd (loop_body w s))) = filter is_download (trace s)
     \<and> ydl_options (snd (loop_body w s)) = ydl_options s
     \<and> main_loop w s = main_loop w (snd (loop_body w s))
     \<and> (\<exists>ev. trace (snd (main_loop w s)) =
               trace (snd (loop_body w s)) @ banner_events @ Prompt url_prompt # ev)"
proof
  assume a: "get_user_input w s = (Inr (u, a), s1) \<and> u \<noteq> [] \<and>
    mkdir_raises w (DEFAULT_DOWNLOAD_PATH s1) = Some e"
  then have g: "get_user_input w s = (Inr (u, a), s1)" and u: "u \<noteq> []"
    and m: "mkdir_raises w (DEFAULT_DOWNLOAD_PATH s1) = Some e"
    by simp_all
  let ?t = "s1\<lparr>url := u, is_audio_only := a,
           trace := trace s1 @
             [Mkdir (DEFAULT_DOWNLOAD_PATH s1), Print (folder_failed_message e)]\<rparr>"
  have b: "loop_body w s = (Inr Continue, ?t)"
    by (rule loop_body_folder_failed [OF g u m])
  have d: "filter is_download (trace s1) = filter is_download (trace s)"
    and o: "ydl_options s1 = ydl_options s"
    using get_user_input_downloads [of w s] g by simp_all
  have l: "main_loop w s = main_loop w ?t"
    by (rule main_loop_continue [OF b])
  obtain ev where "trace (snd (main_loop w ?t)) = trace ?t @ banner_events @ Prompt url_prompt # ev"
    using main_loop_starts by blast
  with b d o l show "loop_body w s = (Inr Continue, ?t)
     \<and> filter is_download (trace (snd (loop_body w s))) = filter is_download (trace s)
     \<and> ydl_options (snd (loop_body w s)) = ydl_options s
     \<and> main_loop w s = main_loop w (snd (loop_body w s))
     \<and> (\<exists>ev. trace (snd (main_loop w s)) =
               trace (snd (loop_body w s)) @ banner_events @ Prompt url_prompt # ev)"
    by simp
qed

theorem folder_failure_aborts_turn_witness:
  "loop_body (demo_world\<lparr>mkdir_raises := (\<lambda>_. Some ''[Errno 13] Permission denied'')\<rparr>)
     (initial_state [''https://example.com/watch?v=abc'', ''/root/x'', ''v'', ''n'']) =
   (Inr Continue,
    (initial_state [''n''])
      \<lparr>DEFAULT_DOWNLOAD_PATH := Path ''/root/x'',
       url := ''https://example.com/watch?v=abc'',
       trace := banner_events @
         [Prompt url_prompt,
          Prompt (path_prompt ''/home/user/Downloads/YT_Downloads''),
          Prompt mode_prompt,
          Mkdir (Path ''/root/x''),
          Print (folder_failed_message ''[Errno 13] Permission denied'')]\<rparr>)"
  using folder_failure_aborts_turn
          [of "demo_world\<lparr>mkdir_raises := (\<lambda>_. Some ''[Errno 13] Permission denied'')\<rparr>"
              "initial_state [''https://example.com/watch?v=abc'', ''/root/x'', ''v'', ''n'']"
              "''https://example.com/watch?v=abc''" False
              "(initial_state [''n''])
                 \<lparr>DEFAULT_DOWNLOAD_PATH := Path ''/root/x'',
                  trace := banner_events @
                    [Prompt url_prompt,
                     Prompt (path_prompt ''/home/user/Downloads/YT_Downloads''),
                     Prompt mode_prompt]\<rparr>"
              "''[Errno 13] Permission denied''"]
        get_user_input_accept
          [of "initial_state [''https://example.com/watch?v=abc'', ''/root/x'', ''v'', ''n'']"
              "''https://example.com/watch?v=abc''" "''/root/x''" "''v''" "[''n'']"
              "demo_world\<lparr>mkdir_raises := (\<lambda>_. Some ''[Errno 13] Permission denied'')\<rparr>"]
  by (simp add: initial_state_def demo_world_def)

section \<open>Starting without ffmpeg\<close>




section \<open>A turn with an empty URL\<close>

text \<open>
  C10. The empty URL is detected by \<open>main\<close> only after \<open>get_user_input\<close> has
  returned. In a turn whose first line is empty, the override and the mode are still
  asked for and read (the trace shows the three prompts before the complaint about the
  URL), a non-empty override is assigned to the destination directory, no call of the
  download library enters the trace, and the loop goes on from the state of that turn,
  the new destination included.
\<close>

theorem empty_url_turn_still_overrides:
  "stdin s = [] # p # rest \<and>
   read_mode
     (s\<lparr>DEFAULT_DOWNLOAD_PATH := (if p \<noteq> [] then Path p else DEFAULT_DOWNLOAD_PATH s),
        stdin := rest,
        trace := trace s @ banner_events @
          [Prompt url_prompt,
           Prompt (path_prompt (path_str w (Resolve (DEFAULT_DOWNLOAD_PATH s))))]\<rparr>)
     = (Inr a, s7) \<longrightarrow>
     loop_body w s =
       (Inr Continue,
        s7\<lparr>url := [], is_audio_only := a, trace := trace s7 @ [Print no_url_message]\<rparr>)
     \<and> (\<exists>ev. trace s7 =
               trace s @ banner_events @
               [Prompt url_prompt,
                Prompt (path_prompt (path_str w (Resolve (DEFAULT_DOWNLOAD_PATH s)))),
                Prompt mode_prompt] @ ev)
     \<and> DEFAULT_DOWNLOAD_PATH (snd (loop_body w s)) =
         (if p \<noteq> [] then Path p else DEFAULT_DOWNLOAD_PATH s)
     \<and> filter is_download (trace (snd (loop_body w s))) = filter is_download (trace s)
     \<and> main_loop w s = main_loop w (snd (loop_body w s))"
proof
  let ?t = "s\<lparr>DEFAULT_DOWNLOAD_PATH := (if p \<noteq> [] then Path p else DEFAULT_DOWNLOAD_PATH s),
        stdin := rest,
        trace := trace s @ banner_events @
          [Prompt url_prompt,
           Prompt (path_prompt (path_str w (Resolve (DEFAULT_DOWNLOAD_PATH s))))]\<rparr>"
  assume "stdin s = [] # p # rest \<and> read_mode ?t = (Inr a, s7)"
  then have e: "stdin s = [] # p # rest" and rm: "read_mode ?t = (Inr a, s7)"
    by simp_all
  have g: "get_user_input w s = (Inr ([], a), s7)"
    using get_user_input_read [OF e, of w] rm by simp
  let ?u = "s7\<lparr>url := [], is_audio_only := a, trace := trace s7 @ [Print no_url_message]\<rparr>"
  have b: "loop_body w s = (Inr Continue, ?u)"
    by (rule loop_body_no_url [OF g])
  obtain ev where "trace (snd (read_mode ?t)) = trace ?t @ Prompt mode_prompt # ev"
    using read_mode_starts by blast
  with rm have tr: "trace s7 =
      trace s @ banner_events @
        [Prompt url_prompt,
         Prompt (path_prompt (path_str w (Resolve (DEFAULT_DOWNLOAD_PATH s)))),
         Prompt mode_prompt] @ ev"
    by simp
  have d: "DEFAULT_DOWNLOAD_PATH s7 = (if p \<noteq> [] then Path p else DEFAULT_DOWNLOAD_PATH s)"
    using get_user_input_destination [of w s] g e by simp
  have f: "filter is_download (trace s7) = filter is_download (trace s)"
    using get_user_input_downloads [of w s] g by simp
  have l: "main_loop w s = main_loop w ?u"
    by (rule main_loop_continue [OF b])
  from b tr d f l show "loop_body w s = (Inr Continue, ?u)
     \<and> (\<exists>ev. trace s7 =
               trace s @ banner_events @
               [Prompt url_prompt,
                Prompt (path_prompt (path_str w (Resolve (DEFAULT_DOWNLOAD_PATH s)))),
                Prompt mode_prompt] @ ev)
     \<and> DEFAULT_DOWNLOAD_PATH (snd (loop_body w s)) =
         (if p \<noteq> [] then Path p else DEFAULT_DOWNLOAD_PATH s)
     \<and> filter is_download (trace (snd (loop_body w s))) = filter is_download (trace s)
     \<and> main_loop w s = main_loop w (snd (loop_body w s))"
    by simp
qed

theorem empty_url_turn_still_overrides_witness:
  "loop_body demo_world (initial_state ['''', ''/tmp/music'', ''a'', ''next'']) =
     (Inr Continue,
      (initial_state [''next''])
        \<lparr>DEFAULT_DOWNLOAD_PATH := Path ''/tmp/music'', is_audio_only := True,
         trace := banner_events @
           [Prompt url_prompt,
            Prompt (path_prompt ''/home/user/Downloads/YT_Downloads''),
            Prompt mode_prompt,
            Print no_url_message]\<rparr>)"
  using empty_url_turn_still_overrides
          [of "initial_state ['''', ''/tmp/music'', ''a'', ''next'']" "''/tmp/music''"
              "[''a'', ''next'']" demo_world True
              "(initial_state [''next''])
                 \<lparr>DEFAULT_DOWNLOAD_PATH := Path ''/tmp/music'',
                  trace := banner_events @
                    [Prompt url_prompt,
                     Prompt (path_prompt ''/home/user/Downloads/YT_Downloads''),
                     Prompt mode_prompt]\<rparr>"]
        read_mode_accept
          [of "(initial_state [''a'', ''next''])
                 \<lparr>DEFAULT_DOWNLOAD_PATH := Path ''/tmp/music'',
                  trace := banner_events @
                    [Prompt url_prompt,
                     Prompt (path_prompt ''/home/user/Downloads/YT_Downloads'')]\<rparr>"
              "''a''" "[''next'']"]
  by (simp add: initial_state_def demo_world_def)

end
